theory Spec2Isabelle
  imports Complex_Main "HOL-Library.Log_Nat"
begin

section \<open>Python values, errors and dictionaries\<close>

text \<open>
  The module \<open>hw2/cnn.py\<close> assembles layers of a tensor library into pipelines. The
  layers are kept symbolic here: a layer is the constructor call that made it. Every
  \<open>raise\<close>, failed \<open>assert\<close>, missing dictionary key, missing argument, division by
  zero and float overflow of the source is a value of \<open>error\<close>; a function that can
  fail returns \<open>error + 'a\<close>.
\<close>

datatype error =
    AssertionError
  | ValueError string
  | KeyError string
  | ZeroDivisionError
  | OverflowError
  | TypeError
  | IndexError
  | RuntimeError

text \<open>A keyword dictionary is an association list with distinct keys.\<close>

definition getitem :: "(string \<times> 'v) list \<Rightarrow> string \<Rightarrow> error + 'v" where
  "getitem d k = (case map_of d k of None \<Rightarrow> Inl (KeyError k) | Some v \<Rightarrow> Inr v)"

text \<open>
  \<open>math.floor(a / b)\<close> on integers. The quotient \<open>a / b\<close> is a double: the true quotient
  rounded to the nearest number with a 53-bit mantissa, ties to the even mantissa, and
  \<open>OverflowError\<close> when that is beyond the range of doubles. \<open>math.floor\<close> then
  rounds the double down to an integer.

  \<open>rne n d\<close> is \<open>n / d\<close> rounded to the nearest integer, ties to even, for \<open>d > 0\<close>.
  \<open>pow2_le e A B\<close> says \<open>2^e * B \<le> A\<close>, and \<open>quotient_exponent A B\<close> is the \<open>e\<close> with
  \<open>2^e \<le> A / B < 2^(e+1)\<close>, for \<open>A, B > 0\<close>. The double nearest to \<open>A / B\<close> is
  \<open>m * 2^t\<close> with \<open>t = max e (-1022) - 52\<close> (the exponent of the last mantissa bit, which
  stops falling at the subnormal numbers) and \<open>m\<close> the quotient \<open>A / (B * 2^t)\<close> rounded.
\<close>

definition rne :: "int \<Rightarrow> int \<Rightarrow> int" where
  "rne n d =
     (let f = n div d; r = n mod d
      in if 2 * r < d then f else if d < 2 * r then f + 1 else if even f then f else f + 1)"

definition pow2_le :: "int \<Rightarrow> int \<Rightarrow> int \<Rightarrow> bool" where
  "pow2_le e A B \<longleftrightarrow> (if 0 \<le> e then B * 2 ^ nat e \<le> A else B \<le> A * 2 ^ nat (- e))"

definition quotient_exponent :: "int \<Rightarrow> int \<Rightarrow> int" where
  "quotient_exponent A B =
     (let d = bitlen A - bitlen B in if pow2_le d A B then d else d - 1)"

text \<open>The floor of the double nearest to \<open>s * A / B\<close>, for a sign \<open>s\<close> and \<open>A, B > 0\<close>.\<close>

definition double_quotient_floor :: "int \<Rightarrow> int \<Rightarrow> int \<Rightarrow> error + int" where
  "double_quotient_floor s A B =
     (let e = quotient_exponent A B;
          t = max e (- 1022) - 52;
          m = (if t \<le> 0 then rne (A * 2 ^ nat (- t)) B else rne A (B * 2 ^ nat t))
      in if 0 \<le> t \<and> 2 ^ 1024 \<le> m * 2 ^ nat t then Inl OverflowError
         else if 0 \<le> t then Inr (s * m * 2 ^ nat t)
         else Inr ((s * m) div 2 ^ nat (- t)))"

definition floor_truediv :: "int \<Rightarrow> int \<Rightarrow> error + int" where
  "floor_truediv a b =
     (if b = 0 then Inl ZeroDivisionError
      else if a = 0 then Inr 0
      else double_quotient_floor (sgn a * sgn b) \<bar>a\<bar> \<bar>b\<bar>)"

text \<open>\<open>a % b\<close> on integers; the result has the sign of \<open>b\<close>, as \<open>mod\<close> on \<open>int\<close>.\<close>

definition py_mod :: "int \<Rightarrow> int \<Rightarrow> error + int" where
  "py_mod a b = (if b = 0 then Inl ZeroDivisionError else Inr (a mod b))"

text \<open>\<open>a // b\<close> on integers.\<close>

definition py_floordiv :: "int \<Rightarrow> int \<Rightarrow> error + int" where
  "py_floordiv a b = (if b = 0 then Inl ZeroDivisionError else Inr (a div b))"

text \<open>
  A slice \<open>xs[i:j]\<close> with Python's reading of negative and out-of-range bounds, and
  an index \<open>xs[i]\<close>, which raises \<open>IndexError\<close> out of range.
\<close>

definition clamp_index :: "nat \<Rightarrow> int \<Rightarrow> nat" where
  "clamp_index n i = (if i < 0 then nat (max 0 (int n + i)) else min n (nat i))"

definition slice :: "'a list \<Rightarrow> int \<Rightarrow> int \<Rightarrow> 'a list" where
  "slice xs i j =
     (let a = clamp_index (length xs) i; b = clamp_index (length xs) j
      in take (b - a) (drop a xs))"

definition slice_from :: "'a list \<Rightarrow> int \<Rightarrow> 'a list" where
  "slice_from xs i = drop (clamp_index (length xs) i) xs"

definition index :: "'a list \<Rightarrow> int \<Rightarrow> error + 'a" where
  "index xs i =
     (if 0 \<le> i \<and> i < int (length xs) then Inr (xs ! nat i)
      else if i < 0 \<and> - int (length xs) \<le> i then Inr (xs ! nat (int (length xs) + i))
      else Inl IndexError)"

section \<open>Layers\<close>

text \<open>
  One constructor per layer class the module instantiates:
  \<^item> \<open>Conv2d cin cout kw\<close> is \<open>nn.Conv2d(cin, cout, **kw)\<close>;
  \<^item> \<open>Conv2dSame cin cout k b\<close> is
    \<open>nn.Conv2d(cin, cout, kernel_size=k, bias=b, padding='same')\<close>;
  \<^item> \<open>Activation t kw\<close> is \<open>ACTIVATIONS[t](**kw)\<close>;
  \<^item> \<open>AvgPool2d kw\<close>, \<open>MaxPool2d kw\<close>, \<open>Dropout2d p\<close>, \<open>BatchNorm2d n\<close> and
    \<open>Identity\<close> are the library classes of those names;
  \<^item> \<open>ResidualBlock main short\<close> and \<open>ResidualBottleneckBlock main short\<close> are
    instances of the two block classes of the module, with their two \<open>nn.Sequential\<close>s.
  A call of \<open>nn.Conv2d\<close>, \<open>nn.AvgPool2d\<close> or \<open>nn.MaxPool2d\<close> without its required
  argument \<open>kernel_size\<close> raises \<open>TypeError\<close>. The dictionaries hold keywords the
  constructor accepts; the library's validation of the values is outside the model.
\<close>

datatype layer =
    Conv2d int int "(string \<times> int) list"
  | Conv2dSame int int int bool
  | Activation string "(string \<times> real) list"
  | AvgPool2d "(string \<times> int) list"
  | MaxPool2d "(string \<times> int) list"
  | Dropout2d real
  | BatchNorm2d int
  | Identity
  | ResidualBlock "layer list" "layer list"
  | ResidualBottleneckBlock "layer list" "layer list"

definition new_Conv2d :: "int \<Rightarrow> int \<Rightarrow> (string \<times> int) list \<Rightarrow> error + layer" where
  "new_Conv2d cin cout kw =
     (if map_of kw ''kernel_size'' = None then Inl TypeError else Inr (Conv2d cin cout kw))"

definition new_pool :: "((string \<times> int) list \<Rightarrow> layer) \<Rightarrow> (string \<times> int) list \<Rightarrow> error + layer" where
  "new_pool pool_func kw =
     (if map_of kw ''kernel_size'' = None then Inl TypeError else Inr (pool_func kw))"

definition POOLINGS :: "(string \<times> ((string \<times> int) list \<Rightarrow> layer)) list" where
  "POOLINGS = [(''avg'', AvgPool2d), (''max'', MaxPool2d)]"

text \<open>
  The table \<open>ACTIVATIONS\<close> is imported from \<open>hw2/mlp.py\<close>, which is not among the
  sources. The module only asks whether a name is a key of it and calls the entry, so the
  functions below take the list of its keys as their first argument \<open>acts\<close>.
\<close>

definition activation :: "string list \<Rightarrow> string \<Rightarrow> (string \<times> real) list \<Rightarrow> error + layer" where
  "activation acts t kw = (if t \<in> set acts then Inr (Activation t kw) else Inl (KeyError t))"

section \<open>The plain CNN: \<open>CNN._make_feature_extractor\<close>\<close>

record cnn_args =
  in_size :: "int \<times> int \<times> int"
  out_classes :: int
  channels :: "int list"
  pool_every :: int
  hidden_dims :: "int list"
  conv_params :: "(string \<times> int) list"
  activation_type :: string
  activation_params :: "(string \<times> real) list"
  pooling_type :: string
  pooling_params :: "(string \<times> int) list"

text \<open>The variables the loop of lines 89 to 98 updates.\<close>

record fe_state =
  layers :: "layer list"
  conv_out_w :: int
  conv_out_h :: int
  pool_count :: int

text \<open>Lines 92 and 93: the three dictionary lookups, then the division.\<close>

definition conv_dim :: "(string \<times> int) list \<Rightarrow> int \<Rightarrow> error + int" where
  "conv_dim cp d =
     (case getitem cp ''kernel_size'' of Inl e \<Rightarrow> Inl e | Inr k \<Rightarrow>
      (case getitem cp ''padding'' of Inl e \<Rightarrow> Inl e | Inr p \<Rightarrow>
       (case getitem cp ''stride'' of Inl e \<Rightarrow> Inl e | Inr s \<Rightarrow>
          floor_truediv (d - k + 2 * p) s)))"

text \<open>Lines 97 and 98.\<close>

definition pool_dim :: "(string \<times> int) list \<Rightarrow> int \<Rightarrow> error + int" where
  "pool_dim pp d =
     (case getitem pp ''kernel_size'' of Inl e \<Rightarrow> Inl e | Inr k \<Rightarrow> floor_truediv d k)"

text \<open>One pass through the loop body (lines 90 to 98) for the pair \<open>(cin, cout)\<close>.\<close>

definition fe_body ::
  "cnn_args \<Rightarrow> ((string \<times> int) list \<Rightarrow> layer) \<Rightarrow> layer \<Rightarrow> int \<times> int \<Rightarrow> fe_state \<Rightarrow> error + fe_state"
where
  "fe_body a pool_func phi cc s =
     (case cc of (cin, cout) \<Rightarrow>
      (case new_Conv2d cin cout (conv_params a) of Inl e \<Rightarrow> Inl e | Inr conv \<Rightarrow>
       let ls = layers s @ [conv] @ [phi] in
       (case conv_dim (conv_params a) (conv_out_w s) of Inl e \<Rightarrow> Inl e | Inr w \<Rightarrow>
        (case conv_dim (conv_params a) (conv_out_h s) of Inl e \<Rightarrow> Inl e | Inr h \<Rightarrow>
         let pc = pool_count s + 1 in
         (case py_mod pc (pool_every a) of Inl e \<Rightarrow> Inl e | Inr m \<Rightarrow>
            if m = 0 then
              (case new_pool pool_func (pooling_params a) of Inl e \<Rightarrow> Inl e | Inr pool \<Rightarrow>
               let ls' = ls @ [pool] in
               (case pool_dim (pooling_params a) w of Inl e \<Rightarrow> Inl e | Inr w' \<Rightarrow>
                (case pool_dim (pooling_params a) h of Inl e \<Rightarrow> Inl e | Inr h' \<Rightarrow>
                   Inr \<lparr>layers = ls', conv_out_w = w', conv_out_h = h', pool_count = pc\<rparr>)))
            else Inr \<lparr>layers = ls, conv_out_w = w, conv_out_h = h, pool_count = pc\<rparr>)))))"

text \<open>The \<open>for\<close> loop of line 89 over the zipped channel pairs.\<close>

fun fe_loop ::
  "cnn_args \<Rightarrow> ((string \<times> int) list \<Rightarrow> layer) \<Rightarrow> layer \<Rightarrow> (int \<times> int) list \<Rightarrow> fe_state \<Rightarrow> error + fe_state"
where
  "fe_loop a pool_func phi [] s = Inr s"
| "fe_loop a pool_func phi (cc # ccs) s =
     (case fe_body a pool_func phi cc s of
        Inl e \<Rightarrow> Inl e
      | Inr s' \<Rightarrow> fe_loop a pool_func phi ccs s')"

text \<open>
  What a \<open>_make_feature_extractor\<close> method leaves behind: the layer list given to
  \<open>nn.Sequential\<close>, and the attributes \<open>conv_out_w\<close> and \<open>conv_out_h\<close> it sets on
  \<open>self\<close>. The two attributes are Python numbers; where the source computes a float
  (a negative exponent at lines 376 and 438) the value is not modelled.
\<close>

datatype pynum = PyInt int | PyFloat

record extractor =
  seq :: "layer list"
  out_w :: pynum
  out_h :: pynum

text \<open>\<open>CNN._make_feature_extractor\<close> (lines 71 to 104).\<close>

definition CNN_make_feature_extractor :: "string list \<Rightarrow> cnn_args \<Rightarrow> error + extractor" where
  "CNN_make_feature_extractor acts a =
     (case in_size a of (in_channels, in_h, in_w) \<Rightarrow>
      (case getitem POOLINGS (pooling_type a) of Inl e \<Rightarrow> Inl e | Inr pool_func \<Rightarrow>
       (case activation acts (activation_type a) (activation_params a) of Inl e \<Rightarrow> Inl e | Inr phi \<Rightarrow>
        (case fe_loop a pool_func phi
                (zip ([in_channels] @ butlast (channels a)) (channels a))
                \<lparr>layers = [], conv_out_w = in_w, conv_out_h = in_h, pool_count = 0\<rparr> of
           Inl e \<Rightarrow> Inl e
         | Inr s \<Rightarrow> Inr \<lparr>seq = layers s, out_w = PyInt (conv_out_w s), out_h = PyInt (conv_out_h s)\<rparr>))))"

section \<open>\<open>ResidualBlock\<close> and \<open>ResidualBottleneckBlock\<close>\<close>

text \<open>The keyword arguments of \<open>ResidualBlock.__init__\<close> besides the three lists.\<close>

record block_kwargs =
  batchnorm :: bool
  dropout :: real
  act_type :: string
  act_params :: "(string \<times> real) list"

text \<open>
  The loop of lines 214 to 224 over \<open>range(len(kernel_sizes))\<close>, with its \<open>break\<close>.
  The assertions of lines 188 to 190 come first, so every index read here is in range.
\<close>

fun main_loop ::
  "int list \<Rightarrow> int list \<Rightarrow> bool \<Rightarrow> real \<Rightarrow> layer \<Rightarrow> nat list \<Rightarrow> layer list \<Rightarrow> layer list"
where
  "main_loop all_channels kernel_sizes bn dr phi [] main_layers = main_layers"
| "main_loop all_channels kernel_sizes bn dr phi (i # rest) main_layers =
     (let cin = all_channels ! i; cout = all_channels ! (i + 1);
          main_layers1 = main_layers @ [Conv2dSame cin cout (kernel_sizes ! i) True]
      in if int i = int (length kernel_sizes) - 1 then main_layers1
         else main_loop all_channels kernel_sizes bn dr phi rest
                (main_layers1
                 @ (if 0 < dr then [Dropout2d dr] else [])
                 @ (if bn then [BatchNorm2d (all_channels ! (i + 1))] else [])
                 @ [phi]))"

text \<open>
  \<open>ResidualBlock.__init__\<close> (lines 187 to 231): the pair
  \<open>(main_path, shortcut_path)\<close> of the new object, or the exception.
\<close>

definition ResidualBlock_init ::
  "string list \<Rightarrow> int \<Rightarrow> int list \<Rightarrow> int list \<Rightarrow> block_kwargs \<Rightarrow> error + (layer list \<times> layer list)"
where
  "ResidualBlock_init acts in_channels chs kernel_sizes kw =
     (if chs = [] \<or> kernel_sizes = [] then Inl AssertionError
      else if length chs \<noteq> length kernel_sizes then Inl AssertionError
      else if \<not> list_all (\<lambda>x. x mod 2 = 1) kernel_sizes then Inl AssertionError
      else if act_type kw \<notin> set acts then Inl (ValueError ''Unsupported activation type'')
      else
        (let all_channels = [in_channels] @ chs in
         (case activation acts (act_type kw) (act_params kw) of Inl e \<Rightarrow> Inl e | Inr phi \<Rightarrow>
          let main_layers = main_loop all_channels kernel_sizes (batchnorm kw) (dropout kw) phi
                              [0 ..< length kernel_sizes] [];
              short_layers = (if in_channels = last chs then [Identity]
                              else [Conv2dSame in_channels (last chs) 1 False])
          in Inr (main_layers, short_layers))))"

text \<open>\<open>ResidualBottleneckBlock.__init__\<close> (lines 273 to 286).\<close>

definition ResidualBottleneckBlock_init ::
  "string list \<Rightarrow> int \<Rightarrow> int list \<Rightarrow> int list \<Rightarrow> block_kwargs \<Rightarrow> error + (layer list \<times> layer list)"
where
  "ResidualBottleneckBlock_init acts in_out_channels inner_channels inner_kernel_sizes kw =
     (if \<not> 0 < length inner_channels then Inl AssertionError
      else if length inner_channels \<noteq> length inner_kernel_sizes then Inl AssertionError
      else ResidualBlock_init acts in_out_channels
             ([inner_channels ! 0] @ inner_channels @ [in_out_channels])
             ([1] @ inner_kernel_sizes @ [1]) kw)"

section \<open>\<open>ResNet._make_feature_extractor\<close> and \<open>YourCNN._make_feature_extractor\<close>\<close>

record resnet_args =
  res_batchnorm :: bool
  res_dropout :: real
  bottleneck :: bool

definition block_kw :: "cnn_args \<Rightarrow> resnet_args \<Rightarrow> block_kwargs" where
  "block_kw a ra =
     \<lparr>batchnorm = res_batchnorm ra, dropout = res_dropout ra,
      act_type = activation_type a, act_params = activation_params a\<rparr>"

definition as_plain :: "error + (layer list \<times> layer list) \<Rightarrow> error + layer" where
  "as_plain r = (case r of Inl e \<Rightarrow> Inl e | Inr (m, s) \<Rightarrow> Inr (ResidualBlock m s))"

definition as_bottleneck :: "error + (layer list \<times> layer list) \<Rightarrow> error + layer" where
  "as_bottleneck r = (case r of Inl e \<Rightarrow> Inl e | Inr (m, s) \<Rightarrow> Inr (ResidualBottleneckBlock m s))"

text \<open>The block built for the complete group \<open>i\<close> (lines 337 to 353).\<close>

definition group_block ::
  "string list \<Rightarrow> cnn_args \<Rightarrow> resnet_args \<Rightarrow> int list \<Rightarrow> int \<Rightarrow> error + layer"
where
  "group_block acts a ra all_channels i =
     (let P = pool_every a in
      (case index all_channels (i * P) of Inl e \<Rightarrow> Inl e | Inr c_in \<Rightarrow>
       (case index all_channels (P * (i + 1)) of Inl e \<Rightarrow> Inl e | Inr c_out \<Rightarrow>
          if c_in \<noteq> c_out \<or> \<not> bottleneck ra then
            as_plain (ResidualBlock_init acts c_in
              (slice all_channels (i * P + 1) ((i + 1) * P + 1))
              (replicate (nat P) 3) (block_kw a ra))
          else
            as_bottleneck (ResidualBottleneckBlock_init acts c_in
              (slice all_channels (i * P + 2) ((i + 1) * P))
              (replicate (nat (P - 2)) 3) (block_kw a ra)))))"

text \<open>
  The loop of lines 336 to 355 over \<open>range(pools_num)\<close>: the block, then the pooling
  layer, whose constructor call is \<open>pool\<close>.
\<close>

fun group_loop ::
  "(int \<Rightarrow> error + layer) \<Rightarrow> error + layer \<Rightarrow> int list \<Rightarrow> layer list \<Rightarrow> error + layer list"
where
  "group_loop blk pool [] ls = Inr ls"
| "group_loop blk pool (i # rest) ls =
     (case blk i of
        Inl e \<Rightarrow> Inl e
      | Inr b \<Rightarrow>
          (case pool of
             Inl e \<Rightarrow> Inl e
           | Inr p \<Rightarrow> group_loop blk pool rest (ls @ [b] @ [p])))"

text \<open>The block built for the trailing group of \<open>length\<close> channels (lines 358 to 374).\<close>

definition remainder_block ::
  "string list \<Rightarrow> cnn_args \<Rightarrow> resnet_args \<Rightarrow> int list \<Rightarrow> int \<Rightarrow> error + layer"
where
  "remainder_block acts a ra all_channels len =
     (case index all_channels (- len - 1) of Inl e \<Rightarrow> Inl e | Inr c_in \<Rightarrow>
      (case index all_channels (- 1) of Inl e \<Rightarrow> Inl e | Inr c_out \<Rightarrow>
         if c_in \<noteq> c_out \<or> \<not> bottleneck ra then
           as_plain (ResidualBlock_init acts c_in
             (slice_from all_channels (- len))
             (replicate (nat len) 3) (block_kw a ra))
         else
           as_bottleneck (ResidualBottleneckBlock_init acts c_in
             (slice all_channels (- len) (- 1))
             (replicate (nat (pool_every a - 2)) 3) (block_kw a ra))))"

text \<open>
  Lines 376 and 377: \<open>in_w // (kernel_size ** pools_num)\<close>. With a negative exponent
  the power is a float (and \<open>0 ** e\<close> raises).
\<close>

definition floordiv_pow :: "int \<Rightarrow> int \<Rightarrow> int \<Rightarrow> error + pynum" where
  "floordiv_pow d k e =
     (if 0 \<le> e then
        (case py_floordiv d (k ^ nat e) of Inl err \<Rightarrow> Inl err | Inr q \<Rightarrow> Inr (PyInt q))
      else if k = 0 then Inl ZeroDivisionError
      else Inr PyFloat)"

definition tracked_dims ::
  "cnn_args \<Rightarrow> int \<Rightarrow> layer list \<Rightarrow> error + extractor"
where
  "tracked_dims a pools_num ls =
     (case in_size a of (in_channels, in_h, in_w) \<Rightarrow>
      (case getitem (pooling_params a) ''kernel_size'' of Inl e \<Rightarrow> Inl e | Inr k \<Rightarrow>
       (case floordiv_pow in_w k pools_num of Inl e \<Rightarrow> Inl e | Inr w \<Rightarrow>
        (case getitem (pooling_params a) ''kernel_size'' of Inl e \<Rightarrow> Inl e | Inr k' \<Rightarrow>
         (case floordiv_pow in_h k' pools_num of Inl e \<Rightarrow> Inl e | Inr h \<Rightarrow>
            Inr \<lparr>seq = ls, out_w = w, out_h = h\<rparr>)))))"

text \<open>\<open>ResNet._make_feature_extractor\<close> (lines 316 to 382).\<close>

definition ResNet_make_feature_extractor ::
  "string list \<Rightarrow> cnn_args \<Rightarrow> resnet_args \<Rightarrow> error + extractor"
where
  "ResNet_make_feature_extractor acts a ra =
     (case in_size a of (in_channels, in_h, in_w) \<Rightarrow>
      let all_channels = [in_channels] @ channels a in
      (case getitem POOLINGS (pooling_type a) of Inl e \<Rightarrow> Inl e | Inr pool_func \<Rightarrow>
       (case py_floordiv (int (length (channels a))) (pool_every a) of Inl e \<Rightarrow> Inl e | Inr pools_num \<Rightarrow>
        (case group_loop (group_block acts a ra all_channels) (new_pool pool_func (pooling_params a))
                (map int [0 ..< nat pools_num]) [] of
           Inl e \<Rightarrow> Inl e
         | Inr ls \<Rightarrow>
           (case py_mod (int (length (channels a))) (pool_every a) of Inl e \<Rightarrow> Inl e | Inr len \<Rightarrow>
              if 0 < len then
                (case remainder_block acts a ra all_channels len of
                   Inl e \<Rightarrow> Inl e
                 | Inr b \<Rightarrow> tracked_dims a pools_num (ls @ [b]))
              else tracked_dims a pools_num ls)))))"

text \<open>\<open>YourCNN._make_feature_extractor\<close> (lines 411 to 441): plain blocks only.\<close>

definition your_group_block ::
  "string list \<Rightarrow> cnn_args \<Rightarrow> resnet_args \<Rightarrow> int list \<Rightarrow> int \<Rightarrow> error + layer"
where
  "your_group_block acts a ra all_channels i =
     (let P = pool_every a in
      (case index all_channels (i * P) of Inl e \<Rightarrow> Inl e | Inr c_in \<Rightarrow>
         as_plain (ResidualBlock_init acts c_in
           (slice all_channels (i * P + 1) ((i + 1) * P + 1))
           (replicate (nat P) 3) (block_kw a ra))))"

definition your_remainder_block ::
  "string list \<Rightarrow> cnn_args \<Rightarrow> resnet_args \<Rightarrow> int list \<Rightarrow> int \<Rightarrow> error + layer"
where
  "your_remainder_block acts a ra all_channels len =
     (case index all_channels (- len - 1) of Inl e \<Rightarrow> Inl e | Inr c_in \<Rightarrow>
        as_plain (ResidualBlock_init acts c_in
          (slice_from all_channels (- len))
          (replicate (nat len) 3) (block_kw a ra)))"

definition YourCNN_make_feature_extractor ::
  "string list \<Rightarrow> cnn_args \<Rightarrow> resnet_args \<Rightarrow> error + extractor"
where
  "YourCNN_make_feature_extractor acts a ra =
     (case in_size a of (in_channels, in_h, in_w) \<Rightarrow>
      let all_channels = [in_channels] @ channels a in
      (case getitem POOLINGS (pooling_type a) of Inl e \<Rightarrow> Inl e | Inr pool_func \<Rightarrow>
       (case py_floordiv (int (length (channels a))) (pool_every a) of Inl e \<Rightarrow> Inl e | Inr pools_num \<Rightarrow>
        (case group_loop (your_group_block acts a ra all_channels) (new_pool pool_func (pooling_params a))
                (map int [0 ..< nat pools_num]) [] of
           Inl e \<Rightarrow> Inl e
         | Inr ls \<Rightarrow>
           (case py_mod (int (length (channels a))) (pool_every a) of Inl e \<Rightarrow> Inl e | Inr len \<Rightarrow>
              if 0 < len then
                (case your_remainder_block acts a ra all_channels len of
                   Inl e \<Rightarrow> Inl e
                 | Inr b \<Rightarrow> tracked_dims a pools_num (ls @ [b]))
              else tracked_dims a pools_num ls)))))"

section \<open>The tensor library\<close>

text \<open>
  The classifier head is an \<open>MLP\<close> of \<open>hw2/mlp.py\<close>, which is not among the sources;
  the object is kept as the three arguments of its constructor call (lines 132 to 136).
  What the constructor does (it may raise, and it initialises its layers from the global
  generator) is the operation \<open>mlp_init\<close> of the library below.
\<close>

record mlp_head =
  in_dim :: int
  dims :: "int list"
  nonlins :: "(layer + string) list"

text \<open>
  The operations of the tensor library that the module calls, as a parameter: tensors
  \<open>'t\<close>, states of the global random generator \<open>'r\<close>. \<open>apply_layer training l x r\<close> is the
  call \<open>l(x)\<close> of a library layer in the given mode and generator state; \<open>t_unsqueeze\<close>
  is \<open>torch.unsqueeze(x, 0)\<close>, \<open>t_flatten\<close> is \<open>x.reshape(x.shape[0], -1)\<close>,
  \<open>t_add\<close> is \<open>+\<close>, \<open>t_relu\<close> is \<open>torch.relu\<close>, \<open>t_shape\<close> is \<open>x.shape\<close>.
  \<open>mlp_init head r\<close> is the constructor call \<open>MLP(...)\<close> in generator state \<open>r\<close>: the
  exception if it raises, and the generator state it leaves; \<open>mlp_forward head x\<close> is
  the call of the head.
\<close>

record ('t, 'r) torch =
  apply_layer :: "bool \<Rightarrow> layer \<Rightarrow> 't \<Rightarrow> 'r \<Rightarrow> (error + 't) \<times> 'r"
  t_add :: "'t \<Rightarrow> 't \<Rightarrow> error + 't"
  t_relu :: "'t \<Rightarrow> 't"
  t_zeros :: "int \<times> int \<times> int \<Rightarrow> error + 't"
  t_unsqueeze :: "'t \<Rightarrow> 't"
  t_numel :: "'t \<Rightarrow> int"
  t_flatten :: "'t \<Rightarrow> error + 't"
  t_shape :: "'t \<Rightarrow> int list"
  mlp_init :: "mlp_head \<Rightarrow> 'r \<Rightarrow> error option \<times> 'r"
  mlp_forward :: "mlp_head \<Rightarrow> 't \<Rightarrow> error + 't"

text \<open>
  Calling a layer, and \<open>nn.Sequential.forward\<close>. The two block classes share
  \<open>ResidualBlock.forward\<close> (lines 235 to 243): the main path, then the shortcut path,
  the sum, \<open>torch.relu\<close>.
\<close>

fun forward_layer :: "('t, 'r) torch \<Rightarrow> bool \<Rightarrow> layer \<Rightarrow> 't \<Rightarrow> 'r \<Rightarrow> (error + 't) \<times> 'r"
and forward_seq :: "('t, 'r) torch \<Rightarrow> bool \<Rightarrow> layer list \<Rightarrow> 't \<Rightarrow> 'r \<Rightarrow> (error + 't) \<times> 'r"
where
  "forward_layer T tr (ResidualBlock main short) x r =
     (case forward_seq T tr main x r of
        (Inl e, r1) \<Rightarrow> (Inl e, r1)
      | (Inr a, r1) \<Rightarrow>
          (case forward_seq T tr short x r1 of
             (Inl e, r2) \<Rightarrow> (Inl e, r2)
           | (Inr b, r2) \<Rightarrow>
               (case t_add T a b of
                  Inl e \<Rightarrow> (Inl e, r2)
                | Inr out \<Rightarrow> (Inr (t_relu T out), r2))))"
| "forward_layer T tr (ResidualBottleneckBlock main short) x r =
     (case forward_seq T tr main x r of
        (Inl e, r1) \<Rightarrow> (Inl e, r1)
      | (Inr a, r1) \<Rightarrow>
          (case forward_seq T tr short x r1 of
             (Inl e, r2) \<Rightarrow> (Inl e, r2)
           | (Inr b, r2) \<Rightarrow>
               (case t_add T a b of
                  Inl e \<Rightarrow> (Inl e, r2)
                | Inr out \<Rightarrow> (Inr (t_relu T out), r2))))"
| "forward_layer T tr l x r = apply_layer T tr l x r"
| "forward_seq T tr [] x r = (Inr x, r)"
| "forward_seq T tr (l # ls) x r =
     (case forward_layer T tr l x r of
        (Inl e, r1) \<Rightarrow> (Inl e, r1)
      | (Inr y, r1) \<Rightarrow> forward_seq T tr ls y r1)"

section \<open>\<open>CNN._n_features\<close>, \<open>CNN._make_mlp\<close>, \<open>CNN.__init__\<close> and \<open>CNN.forward\<close>\<close>

text \<open>
  The \<open>try\<close> block of \<open>_n_features\<close> (lines 115 and 116): the result or the exception,
  and the state of the generator when the block is left.
\<close>

definition n_features_try ::
  "('t, 'r) torch \<Rightarrow> bool \<Rightarrow> layer list \<Rightarrow> int \<times> int \<times> int \<Rightarrow> 'r \<Rightarrow> (error + int) \<times> 'r"
where
  "n_features_try T tr fe sz r =
     (case t_zeros T sz of
        Inl e \<Rightarrow> (Inl e, r)
      | Inr z \<Rightarrow>
          (case forward_seq T tr fe (t_unsqueeze T z) r of
             (Inl e, r1) \<Rightarrow> (Inl e, r1)
           | (Inr ext, r1) \<Rightarrow> (Inr (t_numel T ext), r1)))"

text \<open>
  \<open>_n_features\<close> (lines 112 to 120): \<open>get_rng_state\<close>, the \<open>try\<close> block, and
  \<open>set_rng_state\<close> in the \<open>finally\<close> clause.
\<close>

definition CNN_n_features ::
  "('t, 'r) torch \<Rightarrow> bool \<Rightarrow> layer list \<Rightarrow> int \<times> int \<times> int \<Rightarrow> 'r \<Rightarrow> (error + int) \<times> 'r"
where
  "CNN_n_features T tr fe sz r =
     (let rng_state = r in
      (case n_features_try T tr fe sz r of (res, r1) \<Rightarrow> (res, rng_state)))"

text \<open>\<open>_make_mlp\<close> (lines 131 to 140).\<close>

definition CNN_make_mlp ::
  "('t, 'r) torch \<Rightarrow> string list \<Rightarrow> cnn_args \<Rightarrow> bool \<Rightarrow> layer list \<Rightarrow> 'r \<Rightarrow> (error + mlp_head) \<times> 'r"
where
  "CNN_make_mlp T acts a tr fe r =
     (case activation acts (activation_type a) (activation_params a) of
        Inl e \<Rightarrow> (Inl e, r)
      | Inr phi \<Rightarrow>
          (case CNN_n_features T tr fe (in_size a) r of
             (Inl e, r1) \<Rightarrow> (Inl e, r1)
           | (Inr n, r1) \<Rightarrow>
               (let head = \<lparr>in_dim = n, dims = hidden_dims a @ [out_classes a],
                            nonlins = replicate (length (hidden_dims a)) (Inl phi) @ [Inr ''none'']\<rparr>
                in (case mlp_init T head r1 of
                      (Some e, r2) \<Rightarrow> (Inl e, r2)
                    | (None, r2) \<Rightarrow> (Inr head, r2)))))"

text \<open>
  A constructed model. \<open>training\<close> is the mode flag of \<open>nn.Module\<close>, which
  \<open>super().__init__()\<close> (line 51) sets to \<open>True\<close>; no line of the module changes it.
\<close>

record cnn =
  feature_extractor :: "layer list"
  tracked_w :: pynum
  tracked_h :: pynum
  mlp :: mlp_head
  training :: bool

text \<open>
  \<open>CNN.__init__\<close> (lines 51 to 69). The call \<open>self._make_feature_extractor()\<close> of line 68
  is dispatched on the class of \<open>self\<close>; \<open>built\<close> is what that call returns or raises.
  \<open>r\<close> is the state of the global generator when line 69 is reached (the layers built
  before have drawn from it), and the state returned is the one construction leaves.
\<close>

definition CNN_init_with ::
  "error + extractor \<Rightarrow> ('t, 'r) torch \<Rightarrow> string list \<Rightarrow> cnn_args \<Rightarrow> 'r \<Rightarrow> (error + cnn) \<times> 'r"
where
  "CNN_init_with built T acts a r =
     (if channels a = [] \<or> hidden_dims a = [] then (Inl AssertionError, r)
      else if activation_type a \<notin> set acts \<or> pooling_type a \<notin> set (map fst POOLINGS)
        then (Inl (ValueError ''Unsupported activation or pooling type''), r)
      else
        (case built of
           Inl e \<Rightarrow> (Inl e, r)
         | Inr ex \<Rightarrow>
             (case CNN_make_mlp T acts a True (seq ex) r of
                (Inl e, r1) \<Rightarrow> (Inl e, r1)
              | (Inr m, r1) \<Rightarrow>
                  (Inr \<lparr>feature_extractor = seq ex, tracked_w = out_w ex, tracked_h = out_h ex,
                        mlp = m, training = True\<rparr>, r1))))"

definition CNN_init ::
  "('t, 'r) torch \<Rightarrow> string list \<Rightarrow> cnn_args \<Rightarrow> 'r \<Rightarrow> (error + cnn) \<times> 'r"
where
  "CNN_init T acts a r = CNN_init_with (CNN_make_feature_extractor acts a) T acts a r"

text \<open>\<open>ResNet.__init__\<close> (lines 309 to 314) and \<open>YourCNN.__init__\<close> (lines 390 to 399).\<close>

definition ResNet_init ::
  "('t, 'r) torch \<Rightarrow> string list \<Rightarrow> cnn_args \<Rightarrow> resnet_args \<Rightarrow> 'r \<Rightarrow> (error + cnn) \<times> 'r"
where
  "ResNet_init T acts a ra r = CNN_init_with (ResNet_make_feature_extractor acts a ra) T acts a r"

definition YourCNN_init ::
  "('t, 'r) torch \<Rightarrow> string list \<Rightarrow> cnn_args \<Rightarrow> resnet_args \<Rightarrow> 'r \<Rightarrow> (error + cnn) \<times> 'r"
where
  "YourCNN_init T acts a ra r = CNN_init_with (YourCNN_make_feature_extractor acts a ra) T acts a r"


section \<open>A small instance of the tensor library\<close>

text \<open>
  Enough of the library to run examples: a tensor is its shape together with the
  expression that computed it, and the state of the generator counts the numbers drawn.
  Shapes follow the library's documented rules. A convolution with kernel \<open>k\<close>, stride
  \<open>s\<close> (default 1), padding \<open>p\<close> (default 0) and dilation \<open>d\<close> (default 1) maps a side
  \<open>n\<close> to \<open>(n + 2p - d(k - 1) - 1) div s + 1\<close>; \<open>padding='same'\<close> keeps it. Pooling with
  kernel \<open>k\<close>, stride \<open>s\<close> (default \<open>k\<close>) and padding \<open>p\<close> (default 0), and for
  max-pooling dilation \<open>d\<close> (default 1), maps it by the same formula. Other entries of the
  dictionaries are not read. A dropout layer draws from the generator in training mode
  only, and the head's constructor draws once for each of its linear layers.
\<close>

datatype expr =
    Zeros
  | Unsqueeze expr
  | App layer expr
  | Add expr expr
  | Relu expr
  | Flatten expr
  | Head mlp_head expr

definition kwarg :: "(string \<times> int) list \<Rightarrow> string \<Rightarrow> int \<Rightarrow> int" where
  "kwarg kw k dflt = (case map_of kw k of None \<Rightarrow> dflt | Some v \<Rightarrow> v)"

definition out_side :: "int \<Rightarrow> int \<Rightarrow> int \<Rightarrow> int \<Rightarrow> int \<Rightarrow> int" where
  "out_side n k s p d = (n + 2 * p - d * (k - 1) - 1) div s + 1"

text \<open>The shape rule of a layer with a kernel, from its four parameters.\<close>

definition window_shape ::
  "int list \<Rightarrow> int option \<Rightarrow> int \<Rightarrow> int \<Rightarrow> int \<Rightarrow> int \<Rightarrow> int \<Rightarrow> error + int list"
where
  "window_shape sh cin cout k s p d =
     (case sh of
        [b, c, h, w] \<Rightarrow>
          if (cin \<noteq> None \<and> cin \<noteq> Some c) \<or> s \<le> 0 \<or> k \<le> 0 \<or> d \<le> 0 \<or> p < 0
             \<or> out_side h k s p d \<le> 0 \<or> out_side w k s p d \<le> 0
          then Inl RuntimeError
          else Inr [b, cout, out_side h k s p d, out_side w k s p d]
      | _ \<Rightarrow> Inl RuntimeError)"

fun out_shape :: "layer \<Rightarrow> int list \<Rightarrow> error + int list" where
  "out_shape (Conv2d cin cout kw) sh =
     (case map_of kw ''kernel_size'' of
        None \<Rightarrow> Inl RuntimeError
      | Some k \<Rightarrow>
          window_shape sh (Some cin) cout k (kwarg kw ''stride'' 1) (kwarg kw ''padding'' 0)
            (kwarg kw ''dilation'' 1))"
| "out_shape (Conv2dSame cin cout k bias) sh =
     (case sh of
        [b, c, h, w] \<Rightarrow> if c \<noteq> cin then Inl RuntimeError else Inr [b, cout, h, w]
      | _ \<Rightarrow> Inl RuntimeError)"
| "out_shape (Activation t kw) sh = Inr sh"
| "out_shape (AvgPool2d kw) sh =
     (case map_of kw ''kernel_size'' of
        None \<Rightarrow> Inl RuntimeError
      | Some k \<Rightarrow>
          (case sh of
             [b, c, h, w] \<Rightarrow>
               window_shape sh None c k (kwarg kw ''stride'' k) (kwarg kw ''padding'' 0) 1
           | _ \<Rightarrow> Inl RuntimeError))"
| "out_shape (MaxPool2d kw) sh =
     (case map_of kw ''kernel_size'' of
        None \<Rightarrow> Inl RuntimeError
      | Some k \<Rightarrow>
          (case sh of
             [b, c, h, w] \<Rightarrow>
               window_shape sh None c k (kwarg kw ''stride'' k) (kwarg kw ''padding'' 0)
                 (kwarg kw ''dilation'' 1)
           | _ \<Rightarrow> Inl RuntimeError))"
| "out_shape (Dropout2d p) sh = Inr sh"
| "out_shape (BatchNorm2d n) sh =
     (case sh of
        [b, c, h, w] \<Rightarrow> if c \<noteq> n then Inl RuntimeError else Inr sh
      | _ \<Rightarrow> Inl RuntimeError)"
| "out_shape Identity sh = Inr sh"
| "out_shape (ResidualBlock main short) sh = Inl RuntimeError"
| "out_shape (ResidualBottleneckBlock main short) sh = Inl RuntimeError"

fun draws :: "bool \<Rightarrow> layer \<Rightarrow> nat" where
  "draws tr (Dropout2d p) = (if tr then 1 else 0)"
| "draws tr l = 0"

definition shape_torch :: "(int list \<times> expr, nat) torch" where
  "shape_torch =
     \<lparr>apply_layer = (\<lambda>tr l x r.
        (case out_shape l (fst x) of
           Inl e \<Rightarrow> (Inl e, r)
         | Inr sh \<Rightarrow> (Inr (sh, App l (snd x)), r + draws tr l))),
      t_add = (\<lambda>x y. if fst x = fst y then Inr (fst x, Add (snd x) (snd y)) else Inl RuntimeError),
      t_relu = (\<lambda>x. (fst x, Relu (snd x))),
      t_zeros = (\<lambda>sz. case sz of (c, h, w) \<Rightarrow>
        if c < 0 \<or> h < 0 \<or> w < 0 then Inl RuntimeError else Inr ([c, h, w], Zeros)),
      t_unsqueeze = (\<lambda>x. (1 # fst x, Unsqueeze (snd x))),
      t_numel = (\<lambda>x. prod_list (fst x)),
      t_flatten = (\<lambda>x. case fst x of
          [] \<Rightarrow> Inl RuntimeError
        | b # rest \<Rightarrow>
            if b \<le> 0 \<or> prod_list rest \<le> 0 then Inl RuntimeError
            else Inr ([b, prod_list rest], Flatten (snd x))),
      t_shape = fst,
      mlp_init = (\<lambda>head r. (None, r + length (dims head))),
      mlp_forward = (\<lambda>m x. case fst x of
          [b, n] \<Rightarrow> if n = in_dim m then Inr ([b, last (dims m)], Head m (snd x)) else Inl RuntimeError
        | _ \<Rightarrow> Inl RuntimeError)\<rparr>"

text \<open>
  What the forward pass needs of a library. What a layer, and the sum, accept for one
  sample they accept for a batch of samples of the same shape, in the same mode and in
  inference mode, with the same shape for each sample; \<open>torch.relu\<close> keeps the shape;
  the probe input has the shape \<open>(1, C, H, W)\<close>; \<open>numel\<close> is the product of the shape;
  flattening a non-empty batch of non-empty samples gives
  \<open>(batch, elements of a sample)\<close>; and a head whose constructor returned maps
  \<open>(batch, in_dim)\<close> to \<open>(batch, last of dims)\<close>.
\<close>

definition lawful :: "('t, 'r) torch \<Rightarrow> bool" where
  "lawful T \<longleftrightarrow>
     (\<forall>tr tr' l x x' r r' y r1 s B.
        apply_layer T tr l x r = (Inr y, r1) \<and> t_shape T x = 1 # s \<and> t_shape T x' = B # s
        \<and> 0 < B \<and> (tr' \<longrightarrow> tr) \<longrightarrow>
        (\<exists>s2. t_shape T y = 1 # s2
           \<and> (\<exists>y' r1'. apply_layer T tr' l x' r' = (Inr y', r1') \<and> t_shape T y' = B # s2)))
   \<and> (\<forall>x y x' y' z sx sy B.
        t_add T x y = Inr z \<and> t_shape T x = 1 # sx \<and> t_shape T y = 1 # sy
        \<and> t_shape T x' = B # sx \<and> t_shape T y' = B # sy \<and> 0 < B \<longrightarrow>
        (\<exists>sz. t_shape T z = 1 # sz \<and> (\<exists>z'. t_add T x' y' = Inr z' \<and> t_shape T z' = B # sz)))
   \<and> (\<forall>x. t_shape T (t_relu T x) = t_shape T x)
   \<and> (\<forall>c h w z. t_zeros T (c, h, w) = Inr z \<longrightarrow> t_shape T (t_unsqueeze T z) = [1, c, h, w])
   \<and> (\<forall>x. t_numel T x = prod_list (t_shape T x))
   \<and> (\<forall>x b s. t_shape T x = b # s \<and> 0 < b \<and> 0 < prod_list s \<longrightarrow>
        (\<exists>f. t_flatten T x = Inr f \<and> t_shape T f = [b, prod_list s]))
   \<and> (\<forall>head x b r. fst (mlp_init T head r) = None \<and> t_shape T x = [b, in_dim head]
        \<and> 0 < b \<and> dims head \<noteq> [] \<longrightarrow>
        (\<exists>y. mlp_forward T head x = Inr y \<and> t_shape T y = [b, last (dims head)]))"

section \<open>The stated behaviour, in the words of the specification\<close>

definition conv_kernel :: "cnn_args \<Rightarrow> int" where
  "conv_kernel a = the (map_of (conv_params a) ''kernel_size'')"

definition conv_padding :: "cnn_args \<Rightarrow> int" where
  "conv_padding a = the (map_of (conv_params a) ''padding'')"

definition conv_stride :: "cnn_args \<Rightarrow> int" where
  "conv_stride a = the (map_of (conv_params a) ''stride'')"

definition pool_kernel :: "cnn_args \<Rightarrow> int" where
  "pool_kernel a = the (map_of (pooling_params a) ''kernel_size'')"

text \<open>
  Dimensions in the range where doubles are exact: the larger input side, grown by
  kernel size and twice the padding at each of the \<open>N\<close> stages, stays below \<open>2^53\<close> in
  magnitude, and so do the stride and the pooling kernel size.
\<close>

definition dims_in_range :: "cnn_args \<Rightarrow> bool" where
  "dims_in_range a \<longleftrightarrow>
     max \<bar>fst (snd (in_size a))\<bar> \<bar>snd (snd (in_size a))\<bar>
       + int (length (channels a)) * (\<bar>conv_kernel a\<bar> + 2 * \<bar>conv_padding a\<bar>) < 2 ^ 53
     \<and> \<bar>conv_stride a\<bar> < 2 ^ 53 \<and> \<bar>pool_kernel a\<bar> < 2 ^ 53"

text \<open>
  A valid architecture: both sequences non-empty, a positive pooling interval,
  supported kinds, the three convolution parameters with a stride that is not zero,
  a pooling kernel size that is not zero, and dimensions in range.
\<close>

definition valid_architecture :: "string list \<Rightarrow> cnn_args \<Rightarrow> bool" where
  "valid_architecture acts a \<longleftrightarrow>
     channels a \<noteq> [] \<and> hidden_dims a \<noteq> [] \<and> 0 < pool_every a \<and>
     activation_type a \<in> set acts \<and>
     (pooling_type a = ''avg'' \<or> pooling_type a = ''max'') \<and>
     map_of (conv_params a) ''kernel_size'' \<noteq> None \<and>
     map_of (conv_params a) ''padding'' \<noteq> None \<and>
     map_of (conv_params a) ''stride'' \<noteq> None \<and>
     map_of (conv_params a) ''stride'' \<noteq> Some 0 \<and>
     map_of (pooling_params a) ''kernel_size'' \<noteq> None \<and>
     map_of (pooling_params a) ''kernel_size'' \<noteq> Some 0 \<and>
     dims_in_range a"

definition spec_act :: "cnn_args \<Rightarrow> layer" where
  "spec_act a = Activation (activation_type a) (activation_params a)"

definition spec_pool :: "cnn_args \<Rightarrow> layer" where
  "spec_pool a =
     (if pooling_type a = ''avg'' then AvgPool2d (pooling_params a)
      else MaxPool2d (pooling_params a))"

text \<open>Stage \<open>i\<close> (from 0): the convolution into channel entry \<open>i\<close>, then the activation.\<close>

definition spec_stage :: "cnn_args \<Rightarrow> nat \<Rightarrow> layer list" where
  "spec_stage a i =
     [Conv2d (([fst (in_size a)] @ channels a) ! i) (channels a ! i) (conv_params a), spec_act a]"

text \<open>
  The stage-units of \<open>[(CONV -> ACT)*P -> POOL]*(N div P)\<close> followed by \<open>N mod P\<close>
  more \<open>(CONV -> ACT)\<close>: each unit is the layers of one stage, or the one pooling layer.
\<close>

definition spec_units :: "cnn_args \<Rightarrow> layer list list" where
  "spec_units a =
     (let N = length (channels a); P = nat (pool_every a) in
      concat (map (\<lambda>g. map (spec_stage a) [g * P ..< g * P + P] @ [[spec_pool a]]) [0 ..< N div P])
      @ map (spec_stage a) [N div P * P ..< N div P * P + N mod P])"

text \<open>
  The running dimension after \<open>n\<close> more stages, \<open>c\<close> stages having been built: after
  each convolution \<open>(d - k + 2p) div s\<close>, and after each pooling \<open>d div pk\<close>.
\<close>

fun dim_run :: "int \<Rightarrow> int \<Rightarrow> int \<Rightarrow> int \<Rightarrow> int \<Rightarrow> int \<Rightarrow> nat \<Rightarrow> int \<Rightarrow> int" where
  "dim_run k p s pk P c 0 d = d"
| "dim_run k p s pk P c (Suc n) d =
     (let d1 = (d - k + 2 * p) div s;
          d2 = (if (c + 1) mod P = 0 then d1 div pk else d1)
      in dim_run k p s pk P (c + 1) n d2)"

text \<open>The layers of a loop that adds a pooling layer after every \<open>P\<close>-th stage.\<close>

fun with_pools :: "'a \<Rightarrow> int \<Rightarrow> int \<Rightarrow> 'a list list \<Rightarrow> 'a list" where
  "with_pools pl P c [] = []"
| "with_pools pl P c (x # xs) =
     x @ (if (c + 1) mod P = 0 then [pl] else []) @ with_pools pl P (c + 1) xs"

definition conv_act :: "(string \<times> int) list \<Rightarrow> layer \<Rightarrow> int \<times> int \<Rightarrow> layer list" where
  "conv_act cp phi cc = [Conv2d (fst cc) (snd cc) cp, phi]"

text \<open>
  The first end-to-end scenario of the specification, with a third channel entry so
  that one stage trails the last pooling layer.
\<close>

definition scenario_args :: cnn_args where
  "scenario_args =
     \<lparr>in_size = (3, 32, 32), out_classes = 5, channels = [16, 32, 64], pool_every = 2,
      hidden_dims = [10], conv_params = [(''kernel_size'', 3), (''stride'', 1), (''padding'', 1)],
      activation_type = ''relu'', activation_params = [],
      pooling_type = ''max'', pooling_params = [(''kernel_size'', 2)]\<rparr>"

text \<open>
  A valid residual block: channel and kernel-size sequences non-empty and of equal
  length, every kernel size odd, a supported activation kind.
\<close>

definition valid_block :: "string list \<Rightarrow> int list \<Rightarrow> int list \<Rightarrow> block_kwargs \<Rightarrow> bool" where
  "valid_block acts chs ks kw \<longleftrightarrow>
     chs \<noteq> [] \<and> ks \<noteq> [] \<and> length chs = length ks \<and> list_all odd ks \<and> act_type kw \<in> set acts"

text \<open>
  The main path in the words of the specification: convolution \<open>i\<close> maps
  \<open>channels[i-1]\<close> (the input channels for the first) to \<open>channels[i]\<close> with
  \<open>kernel_sizes[i]\<close>, same-size padding and bias; every convolution but the last is
  followed by dropout (if the probability is positive), normalization (if enabled),
  and the activation.
\<close>

definition spec_conv_group :: "int \<Rightarrow> int list \<Rightarrow> int list \<Rightarrow> block_kwargs \<Rightarrow> nat \<Rightarrow> layer list" where
  "spec_conv_group cin chs ks kw i =
     [Conv2dSame (if i = 0 then cin else chs ! (i - 1)) (chs ! i) (ks ! i) True]
     @ (if Suc i = length chs then []
        else (if 0 < dropout kw then [Dropout2d (dropout kw)] else [])
             @ (if batchnorm kw then [BatchNorm2d (chs ! i)] else [])
             @ [Activation (act_type kw) (act_params kw)])"

definition spec_main_path :: "int \<Rightarrow> int list \<Rightarrow> int list \<Rightarrow> block_kwargs \<Rightarrow> layer list" where
  "spec_main_path cin chs ks kw = concat (map (spec_conv_group cin chs ks kw) [0 ..< length chs])"

text \<open>Layers of the library that hold learned parameters.\<close>

fun has_parameters :: "layer \<Rightarrow> bool" where
  "has_parameters (Activation t kw) = False"
| "has_parameters (AvgPool2d kw) = False"
| "has_parameters (MaxPool2d kw) = False"
| "has_parameters (Dropout2d p) = False"
| "has_parameters Identity = False"
| "has_parameters l = True"

definition lrelu_kwargs :: block_kwargs where
  "lrelu_kwargs =
     \<lparr>batchnorm = True, dropout = 1 / 2, act_type = ''lrelu'',
      act_params = [(''negative_slope'', 1 / 100)]\<rparr>"

text \<open>A configuration with an activation kind outside the table and no padding given.\<close>

definition tanh_args :: cnn_args where
  "tanh_args =
     scenario_args\<lparr>activation_type := ''tanh'',
                    conv_params := [(''kernel_size'', 3), (''stride'', 1)]\<rparr>"

text \<open>A configuration with supported kinds whose builder fails at line 92: no padding given.\<close>

definition bare_args :: cnn_args where
  "bare_args = scenario_args\<lparr>conv_params := [(''kernel_size'', 3), (''stride'', 1)]\<rparr>"

definition plain_resnet :: resnet_args where
  "plain_resnet = \<lparr>res_batchnorm = False, res_dropout = 0, bottleneck = False\<rparr>"

text \<open>A residual network with dropout, and the model its construction returns.\<close>

definition drop_args :: cnn_args where
  "drop_args =
     \<lparr>in_size = (3, 8, 8), out_classes = 5, channels = [4, 4], pool_every = 2,
      hidden_dims = [10], conv_params = [(''kernel_size'', 3), (''stride'', 1), (''padding'', 1)],
      activation_type = ''relu'', activation_params = [],
      pooling_type = ''max'', pooling_params = [(''kernel_size'', 2)]\<rparr>"

definition drop_resnet :: resnet_args where
  "drop_resnet = \<lparr>res_batchnorm = False, res_dropout = 1 / 2, bottleneck = False\<rparr>"

definition drop_extractor :: "layer list" where
  "drop_extractor =
     [ResidualBlock
        [Conv2dSame 3 4 3 True, Dropout2d (1 / 2), Activation ''relu'' [], Conv2dSame 4 4 3 True]
        [Conv2dSame 3 4 1 False],
      MaxPool2d [(''kernel_size'', 2)]]"

definition drop_model :: cnn where
  "drop_model =
     \<lparr>feature_extractor = drop_extractor, tracked_w = PyInt 4, tracked_h = PyInt 4,
      mlp = \<lparr>in_dim = 64, dims = [10, 5], nonlins = [Inl (Activation ''relu'' []), Inr ''none'']\<rparr>,
      training = True\<rparr>"























section \<open>The double quotient\<close>

lemma rne_near:
  assumes "0 < d"
  shows "2 * (rne n d * d) \<le> 2 * n + d" and "2 * n \<le> 2 * (rne n d * d) + d"
proof -
  define f r where "f = n div d" and "r = n mod d"
  have n: "n = f * d + r" by (simp add: f_def r_def)
  have r: "0 \<le> r" "r < d" using assms by (simp_all add: r_def)
  have m: "rne n d = f \<and> 2 * r \<le> d \<or> rne n d = f + 1 \<and> d \<le> 2 * r"
    by (auto simp: rne_def Let_def f_def r_def)
  have e: "(f + 1) * d = f * d + d" by (simp add: algebra_simps)
  show "2 * (rne n d * d) \<le> 2 * n + d"
    using m r n e by auto
  show "2 * n \<le> 2 * (rne n d * d) + d"
    using m r n e by auto
qed

lemma pow2_53: "(2::int) ^ 53 = 9007199254740992"
  by simp

lemma quotient_exponent_lower:
  assumes "0 < A" and "0 < B"
  shows "pow2_le (quotient_exponent A B) A B"
proof (cases "pow2_le (bitlen A - bitlen B) A B")
  case True
  then show ?thesis by (simp add: quotient_exponent_def)
next
  case False
  let ?la = "bitlen A" and ?lb = "bitlen B"
  have la: "2 ^ nat (?la - 1) \<le> A" and lb: "B < 2 ^ nat ?lb"
    using bitlen_bounds [OF assms(1)] bitlen_bounds [OF assms(2)] by simp_all
  have la1: "1 \<le> ?la" and lb1: "1 \<le> ?lb"
    using assms bitlen_eq_zero_iff [of A] bitlen_eq_zero_iff [of B] bitlen_nonneg [of A]
      bitlen_nonneg [of B]
    by linarith+
  have "pow2_le (?la - ?lb - 1) A B"
  proof (cases "0 \<le> ?la - ?lb - 1")
    case True
    have "B * 2 ^ nat (?la - ?lb - 1) \<le> 2 ^ nat ?lb * 2 ^ nat (?la - ?lb - 1)"
      using lb by (intro mult_right_mono) simp_all
    also have "\<dots> = 2 ^ (nat ?lb + nat (?la - ?lb - 1))"
      by (simp add: power_add)
    also have "nat ?lb + nat (?la - ?lb - 1) = nat (?la - 1)"
      using True lb1 by simp
    finally show ?thesis using la True by (simp add: pow2_le_def)
  next
    case neg: False
    have "B \<le> 2 ^ nat ?lb" using lb by simp
    also have "nat ?lb = nat (?la - 1) + nat (- (?la - ?lb - 1))"
      using neg la1 by simp
    also have "(2::int) ^ (nat (?la - 1) + nat (- (?la - ?lb - 1)))
               = 2 ^ nat (?la - 1) * 2 ^ nat (- (?la - ?lb - 1))"
      by (simp add: power_add)
    also have "\<dots> \<le> A * 2 ^ nat (- (?la - ?lb - 1))"
      using la by (intro mult_right_mono) simp_all
    finally show ?thesis using neg by (simp add: pow2_le_def)
  qed
  with False show ?thesis by (simp add: quotient_exponent_def)
qed


lemma scaled_round_div:
  fixes M X B K :: int
  assumes B: "0 < B" and K: "0 < K" and BK: "B < 2 * K"
    and up: "2 * (M * B) \<le> 2 * (X * K) + B" and lo: "2 * (X * K) \<le> 2 * (M * B) + B"
  shows "M div K = X div B"
proof -
  define q where "q = X div B"
  have x: "X = q * B + X mod B" by (simp add: q_def)
  have q1: "q * B \<le> X" and q2: "X + 1 \<le> q * B + B"
    using x pos_mod_sign [OF B, of X] pos_mod_bound [OF B, of X] by linarith+
  have a: "q * B * K \<le> X * K"
    using q1 K by (intro mult_right_mono) simp_all
  have b: "X * K + K \<le> q * B * K + B * K"
  proof -
    have "(X + 1) * K \<le> (q * B + B) * K"
      using q2 K by (intro mult_right_mono) simp_all
    then show ?thesis by (simp add: algebra_simps)
  qed
  have lower: "q * K \<le> M"
  proof (rule ccontr)
    assume "\<not> q * K \<le> M"
    then have "M + 1 \<le> q * K" by simp
    then have "(M + 1) * B \<le> q * K * B"
      using B by (intro mult_right_mono) simp_all
    then have "M * B + B \<le> q * B * K" by (simp add: algebra_simps)
    with a lo B show False by linarith
  qed
  have upper: "M < q * K + K"
  proof (rule ccontr)
    assume "\<not> M < q * K + K"
    then have "q * K + K \<le> M" by simp
    then have "(q * K + K) * B \<le> M * B"
      using B by (intro mult_right_mono) simp_all
    then have "q * B * K + B * K \<le> M * B" by (simp add: algebra_simps)
    with b up BK show False by linarith
  qed
  have "M div K = q"
  proof (rule int_div_pos_eq [of M K q "M - q * K"])
    show "M = K * q + (M - q * K)" by (simp add: algebra_simps)
    show "0 \<le> M - q * K" using lower by simp
    show "M - q * K < K" using upper by simp
  qed
  then show ?thesis by (simp add: q_def)
qed


lemma double_quotient_floor_exact:
  assumes A: "0 < A" "A < 2 ^ 53" and B: "0 < B" "B < 2 ^ 53" and s: "s = 1 \<or> s = - 1"
  shows "double_quotient_floor s A B = Inr ((s * A) div B)"
proof -
  define e where "e = quotient_exponent A B"
  have low: "pow2_le e A B"
    unfolding e_def using A(1) B(1) by (rule quotient_exponent_lower)
  have e_le: "e \<le> 52"
  proof (rule ccontr)
    assume "\<not> e \<le> 52"
    then have e53: "53 \<le> e" by simp
    then have "B * 2 ^ nat e \<le> A" using low by (simp add: pow2_le_def)
    moreover have "1 * 2 ^ nat e \<le> B * (2::int) ^ nat e"
      using B(1) by (intro mult_right_mono) simp_all
    moreover have "(2::int) ^ 53 \<le> 2 ^ nat e"
      using e53 by (intro power_increasing) simp_all
    ultimately show False using A(2) by simp
  qed
  have e_ge: "- 53 \<le> e"
  proof -
    have "1 \<le> bitlen A"
      using A(1) bitlen_eq_zero_iff [of A] bitlen_nonneg [of A] by linarith
    moreover have "bitlen B \<le> 53"
      using B(2) by (simp add: bitlen_le_iff_power)
    ultimately show ?thesis
      by (simp add: e_def quotient_exponent_def Let_def)
  qed
  define k where "k = nat (52 - e)"
  have k: "int k = 52 - e" using e_le by (simp add: k_def)
  define K :: int where "K = 2 ^ k"
  have K: "0 < K" by (simp add: K_def)
  have BK: "B < 2 * K"
  proof (cases "0 \<le> e")
    case True
    have "B * 2 ^ nat e \<le> A" using low True by (simp add: pow2_le_def)
    also have "A < 2 ^ 53" by (rule A(2))
    also have "(53::nat) = Suc k + nat e" using k True by simp
    also have "(2::int) ^ (Suc k + nat e) = 2 * K * 2 ^ nat e"
      by (simp add: power_add K_def)
    finally show ?thesis by simp
  next
    case False
    have "B \<le> A * 2 ^ nat (- e)" using low False by (simp add: pow2_le_def)
    also have "\<dots> < 2 ^ 53 * 2 ^ nat (- e)"
      using A(2) by (intro mult_strict_right_mono) simp_all
    also have "\<dots> = 2 ^ (53 + nat (- e))" by (simp add: power_add)
    also have "53 + nat (- e) = Suc k" using k False by simp
    finally show ?thesis by (simp add: K_def)
  qed
  define m where "m = rne (A * K) B"
  have up: "2 * (m * B) \<le> 2 * (A * K) + B" and lo: "2 * (A * K) \<le> 2 * (m * B) + B"
    unfolding m_def using rne_near [OF B(1), of "A * K"] by simp_all
  have main: "(s * m) div K = (s * A) div B"
  proof (rule scaled_round_div [OF B(1) K BK])
    show "2 * (s * m * B) \<le> 2 * (s * A * K) + B"
      using s up lo by auto
    show "2 * (s * A * K) \<le> 2 * (s * m * B) + B"
      using s up lo by auto
  qed
  have t: "max e (- 1022) - 52 = - int k" using e_ge k by simp
  have val: "double_quotient_floor s A B =
      (if 0 \<le> - int k \<and> 2 ^ 1024 \<le> m * 2 ^ nat (- int k) then Inl OverflowError
       else if 0 \<le> - int k then Inr (s * m * 2 ^ nat (- int k))
       else Inr ((s * m) div K))"
    unfolding double_quotient_floor_def Let_def e_def [symmetric] t
    by (simp add: m_def K_def)
  show ?thesis
  proof (cases "k = 0")
    case True
    then have K1: "K = 1" by (simp add: K_def)
    have "m \<le> 0 \<or> m * 1 \<le> m * B"
      using B(1) by (cases "m \<le> 0") (auto intro!: mult_left_mono)
    then have "m \<le> 2 ^ 53 + 2 ^ 53 + 2 ^ 53"
      using up A B by (auto simp: K1)
    also have "\<dots> < (2::int) ^ 1024" by simp
    finally have "m < 2 ^ 1024" .
    then show ?thesis
      using True val main by (simp add: K1)
  next
    case False
    then show ?thesis using val main by simp
  qed
qed

lemma floor_truediv_exact:
  assumes "b \<noteq> 0" and "\<bar>a\<bar> < 2 ^ 53" and "\<bar>b\<bar> < 2 ^ 53"
  shows "floor_truediv a b = Inr (a div b)"
proof (cases "a = 0")
  case True
  then show ?thesis using assms by (simp add: floor_truediv_def)
next
  case False
  have s: "sgn a * sgn b = 1 \<or> sgn a * sgn b = - 1"
    using False assms(1) by (auto simp: sgn_if)
  have d: "(sgn a * sgn b * \<bar>a\<bar>) div \<bar>b\<bar> = a div b"
    using False assms(1) by (auto simp: sgn_if abs_if)
  show ?thesis
    using False assms double_quotient_floor_exact [of "\<bar>a\<bar>" "\<bar>b\<bar>" "sgn a * sgn b"] s d
    by (simp add: floor_truediv_def)
qed

text \<open>Beyond that range the double is rounded before the floor is taken.\<close>

lemma floor_truediv_rounds: "floor_truediv (2 ^ 53 + 1) 1 = Inr (2 ^ 53)"
  by code_simp

lemma abs_div_le: "\<bar>x div s\<bar> \<le> \<bar>x\<bar>" for x s :: int
proof (cases "s = 0")
  case True
  then show ?thesis by simp
next
  case False
  have pos: "\<bar>y div t\<bar> \<le> \<bar>y\<bar>" if t: "0 < t" for y t :: int
  proof -
    define q r where "q = y div t" and "r = y mod t"
    have y: "y = t * q + r" by (simp add: q_def r_def)
    have r: "0 \<le> r" "r < t" using t by (simp_all add: r_def)
    have a: "q \<le> t * q" if "0 \<le> q"
      using mult_right_mono [of 1 t q] t that by simp
    have b: "t * q + t \<le> q + 1" if "q \<le> - 1"
    proof -
      have "t * (q + 1) \<le> 1 * (q + 1)"
        using t that by (intro mult_right_mono_neg) simp_all
      then show ?thesis by (simp add: algebra_simps)
    qed
    have c: "t * q \<le> - t" if "q \<le> - 1"
      using mult_left_mono [of q "- 1" t] t that by simp
    have "\<bar>q\<bar> \<le> \<bar>y\<bar>"
    proof (cases "0 \<le> q")
      case True
      with a y r show ?thesis by linarith
    next
      case False
      then have "q \<le> - 1" by simp
      with b c y r show ?thesis by linarith
    qed
    then show ?thesis by (simp add: q_def)
  qed
  show ?thesis
  proof (cases "0 < s")
    case True
    then show ?thesis by (rule pos)
  next
    case f: False
    then have "0 < - s" using False by simp
    from pos [OF this, of "- x"] show ?thesis by simp
  qed
qed

section \<open>The plain feature extractor: pipeline and dimensions\<close>

lemma fe_body_valid:
  assumes "getitem (conv_params a) ''kernel_size'' = Inr k"
    and "getitem (conv_params a) ''padding'' = Inr p"
    and "getitem (conv_params a) ''stride'' = Inr s" and "s \<noteq> 0"
    and "getitem (pooling_params a) ''kernel_size'' = Inr pk" and "pk \<noteq> 0"
    and "pool_every a \<noteq> 0"
    and "\<bar>s\<bar> < 2 ^ 53" and "\<bar>pk\<bar> < 2 ^ 53"
    and "\<bar>conv_out_w st - k + 2 * p\<bar> < 2 ^ 53" and "\<bar>conv_out_h st - k + 2 * p\<bar> < 2 ^ 53"
  shows "fe_body a pool_func phi cc st =
     Inr \<lparr>layers = layers st @ conv_act (conv_params a) phi cc
              @ (if (pool_count st + 1) mod pool_every a = 0 then [pool_func (pooling_params a)] else []),
          conv_out_w = (if (pool_count st + 1) mod pool_every a = 0
                        then ((conv_out_w st - k + 2 * p) div s) div pk
                        else (conv_out_w st - k + 2 * p) div s),
          conv_out_h = (if (pool_count st + 1) mod pool_every a = 0
                        then ((conv_out_h st - k + 2 * p) div s) div pk
                        else (conv_out_h st - k + 2 * p) div s),
          pool_count = pool_count st + 1\<rparr>"
proof -
  have kk: "map_of (conv_params a) ''kernel_size'' = Some k"
    and pkk: "map_of (pooling_params a) ''kernel_size'' = Some pk"
    using assms(1,5) by (auto simp: getitem_def split: option.splits)
  have w: "floor_truediv (conv_out_w st - k + 2 * p) s = Inr ((conv_out_w st - k + 2 * p) div s)"
    and h: "floor_truediv (conv_out_h st - k + 2 * p) s = Inr ((conv_out_h st - k + 2 * p) div s)"
    using assms by (simp_all add: floor_truediv_exact)
  have "\<bar>(conv_out_w st - k + 2 * p) div s\<bar> < 2 ^ 53" "\<bar>(conv_out_h st - k + 2 * p) div s\<bar> < 2 ^ 53"
    using abs_div_le [of "conv_out_w st - k + 2 * p" s] abs_div_le [of "conv_out_h st - k + 2 * p" s]
      assms(10,11)
    by linarith+
  then have pw: "floor_truediv ((conv_out_w st - k + 2 * p) div s) pk
                 = Inr (((conv_out_w st - k + 2 * p) div s) div pk)"
    and ph: "floor_truediv ((conv_out_h st - k + 2 * p) div s) pk
                 = Inr (((conv_out_h st - k + 2 * p) div s) div pk)"
    using assms by (simp_all add: floor_truediv_exact)
  show ?thesis
    using assms(1-7) kk pkk
    by (cases cc)
       (simp add: fe_body_def conv_dim_def pool_dim_def py_mod_def new_Conv2d_def new_pool_def
          w h pw ph conv_act_def Let_def)
qed

lemma dim_step_bound:
  "\<bar>(if c then ((d - k + 2 * p) div s) div pk else (d - k + 2 * p) div s)\<bar>
     \<le> \<bar>d\<bar> + (\<bar>k\<bar> + 2 * \<bar>p\<bar>)" for d k p s pk :: int
proof -
  have "\<bar>((d - k + 2 * p) div s) div pk\<bar> \<le> \<bar>(d - k + 2 * p) div s\<bar>" by (rule abs_div_le)
  moreover have "\<bar>(d - k + 2 * p) div s\<bar> \<le> \<bar>d - k + 2 * p\<bar>" by (rule abs_div_le)
  moreover have "\<bar>d - k + 2 * p\<bar> \<le> \<bar>d\<bar> + (\<bar>k\<bar> + 2 * \<bar>p\<bar>)" by linarith
  ultimately show ?thesis
  proof (cases c)
    case True
    assume "\<bar>((d - k + 2 * p) div s) div pk\<bar> \<le> \<bar>(d - k + 2 * p) div s\<bar>"
      "\<bar>(d - k + 2 * p) div s\<bar> \<le> \<bar>d - k + 2 * p\<bar>"
      "\<bar>d - k + 2 * p\<bar> \<le> \<bar>d\<bar> + (\<bar>k\<bar> + 2 * \<bar>p\<bar>)"
    then have "\<bar>((d - k + 2 * p) div s) div pk\<bar> \<le> \<bar>d\<bar> + (\<bar>k\<bar> + 2 * \<bar>p\<bar>)"
      by (rule order_trans [OF order_trans])
    with True show ?thesis by simp
  next
    case False
    assume "\<bar>(d - k + 2 * p) div s\<bar> \<le> \<bar>d - k + 2 * p\<bar>"
      "\<bar>d - k + 2 * p\<bar> \<le> \<bar>d\<bar> + (\<bar>k\<bar> + 2 * \<bar>p\<bar>)"
    then have "\<bar>(d - k + 2 * p) div s\<bar> \<le> \<bar>d\<bar> + (\<bar>k\<bar> + 2 * \<bar>p\<bar>)"
      by (rule order_trans)
    with False show ?thesis by simp
  qed
qed

lemma fe_loop_valid:
  assumes "getitem (conv_params a) ''kernel_size'' = Inr k"
    and "getitem (conv_params a) ''padding'' = Inr p"
    and "getitem (conv_params a) ''stride'' = Inr s" and "s \<noteq> 0"
    and "getitem (pooling_params a) ''kernel_size'' = Inr pk" and "pk \<noteq> 0"
    and "pool_every a \<noteq> 0"
    and "\<bar>s\<bar> < 2 ^ 53" and "\<bar>pk\<bar> < 2 ^ 53"
    and "max \<bar>conv_out_h st\<bar> \<bar>conv_out_w st\<bar> + int (length ccs) * (\<bar>k\<bar> + 2 * \<bar>p\<bar>) < 2 ^ 53"
  shows "fe_loop a pool_func phi ccs st =
     Inr \<lparr>layers = layers st @ with_pools (pool_func (pooling_params a)) (pool_every a) (pool_count st)
                         (map (conv_act (conv_params a) phi) ccs),
          conv_out_w = dim_run k p s pk (pool_every a) (pool_count st) (length ccs) (conv_out_w st),
          conv_out_h = dim_run k p s pk (pool_every a) (pool_count st) (length ccs) (conv_out_h st),
          pool_count = pool_count st + int (length ccs)\<rparr>"
  using assms(10)
proof (induction ccs arbitrary: st)
  case Nil
  show ?case by simp
next
  case (Cons cc ccs)
  let ?c = "\<bar>k\<bar> + 2 * \<bar>p\<bar>"
  let ?pool = "(pool_count st + 1) mod pool_every a = 0"
  let ?w = "(if ?pool then ((conv_out_w st - k + 2 * p) div s) div pk
            else (conv_out_w st - k + 2 * p) div s)"
  let ?h = "(if ?pool then ((conv_out_h st - k + 2 * p) div s) div pk
            else (conv_out_h st - k + 2 * p) div s)"
  let ?st = "\<lparr>layers = layers st @ conv_act (conv_params a) phi cc
              @ (if ?pool then [pool_func (pooling_params a)] else []),
          conv_out_w = ?w, conv_out_h = ?h, pool_count = pool_count st + 1\<rparr>"
  have len: "int (length (cc # ccs)) * ?c = int (length ccs) * ?c + ?c"
    by (simp add: algebra_simps)
  have c0: "0 \<le> int (length ccs) * ?c" by simp
  have mx: "\<bar>conv_out_h st\<bar> \<le> max \<bar>conv_out_h st\<bar> \<bar>conv_out_w st\<bar>"
    "\<bar>conv_out_w st\<bar> \<le> max \<bar>conv_out_h st\<bar> \<bar>conv_out_w st\<bar>"
    by simp_all
  define M where "M = max \<bar>conv_out_h st\<bar> \<bar>conv_out_w st\<bar>"
  define R where "R = int (length ccs) * ?c"
  define top :: int where "top = 2 ^ 53"
  have prem: "M + (R + ?c) < top"
    using Cons.prems unfolding len M_def R_def top_def by simp
  have tri: "\<bar>conv_out_w st - k + 2 * p\<bar> \<le> \<bar>conv_out_w st\<bar> + ?c"
    "\<bar>conv_out_h st - k + 2 * p\<bar> \<le> \<bar>conv_out_h st\<bar> + ?c"
    by linarith+
  have now: "\<bar>conv_out_w st - k + 2 * p\<bar> < 2 ^ 53" "\<bar>conv_out_h st - k + 2 * p\<bar> < 2 ^ 53"
    using prem c0 mx tri unfolding M_def [symmetric] R_def [symmetric] top_def [symmetric]
    by linarith+
  have body: "fe_body a pool_func phi cc st = Inr ?st"
    by (rule fe_body_valid [OF assms(1-9) now])
  have bw: "\<bar>?w\<bar> \<le> \<bar>conv_out_w st\<bar> + ?c" and bh: "\<bar>?h\<bar> \<le> \<bar>conv_out_h st\<bar> + ?c"
    by (rule dim_step_bound)+
  have "max \<bar>?h\<bar> \<bar>?w\<bar> \<le> M + ?c"
    using bw bh mx unfolding M_def [symmetric] by (intro max.boundedI) linarith+
  then have "max \<bar>?h\<bar> \<bar>?w\<bar> + R < top"
    using prem by linarith
  then have next_inv: "max \<bar>conv_out_h ?st\<bar> \<bar>conv_out_w ?st\<bar> + int (length ccs) * ?c < 2 ^ 53"
    unfolding R_def top_def by simp
  show ?case
    by (simp add: body Cons.IH [OF next_inv] Let_def)
qed

lemma with_pools_append:
  "with_pools pl P c (xs @ ys) = with_pools pl P c xs @ with_pools pl P (c + int (length xs)) ys"
  by (induction xs arbitrary: c) (simp_all add: add.assoc)

lemma mod_succ_small:
  assumes "0 < (P::int)" and "c mod P + 1 < P"
  shows "(c + 1) mod P = c mod P + 1"
proof -
  have "(c + 1) mod P = (c mod P + 1) mod P"
    by (simp add: mod_add_left_eq)
  also have "\<dots> = c mod P + 1"
    using assms by (simp add: mod_pos_pos_trivial)
  finally show ?thesis .
qed

lemma with_pools_no_pool:
  assumes "0 < P" and "c mod P + int (length xs) < P"
  shows "with_pools pl P c xs = concat xs"
  using assms
proof (induction xs arbitrary: c)
  case Nil
  show ?case by simp
next
  case (Cons x xs)
  have m: "(c + 1) mod P = c mod P + 1"
    using Cons.prems by (intro mod_succ_small) simp_all
  have nz: "(c + 1) mod P \<noteq> 0"
    using m Cons.prems(1) by (simp add: add_nonneg_eq_0_iff)
  have "with_pools pl P (c + 1) xs = concat xs"
    using Cons.prems m by (intro Cons.IH) simp_all
  then show ?case using nz by simp
qed

lemma with_pools_group:
  assumes "0 < P" and "c mod P = 0" and "int (length xs) = P"
  shows "with_pools pl P c xs = concat xs @ [pl]"
proof -
  from assms have ne: "xs \<noteq> []" by auto
  then obtain ys y where xs: "xs = ys @ [y]"
    by (metis append_butlast_last_id)
  have l: "int (length ys) = P - 1" using assms(3) xs by simp
  have a: "with_pools pl P c ys = concat ys"
    using assms l by (intro with_pools_no_pool) simp_all
  have b: "(c + int (length ys) + 1) mod P = 0"
    using l assms(2) by (simp add: mod_add_left_eq [symmetric, of c])
  show ?thesis
    unfolding xs with_pools_append a using b by simp
qed


lemma take_drop_nth:
  "i + n \<le> length xs \<Longrightarrow> take n (drop i xs) = map ((!) xs) [i ..< i + n]"
  by (rule nth_equalityI) simp_all

lemma with_pools_groups:
  assumes "0 < P" and "k * P \<le> length xs"
  shows "with_pools pl (int P) 0 (take (k * P) xs) =
         concat (map (\<lambda>g. concat (take P (drop (g * P) xs)) @ [pl]) [0 ..< k])"
  using assms(2)
proof (induction k)
  case 0
  show ?case by simp
next
  case (Suc k)
  have le: "k * P \<le> length xs" and le': "k * P + P \<le> length xs"
    using Suc.prems by simp_all
  have t: "take (Suc k * P) xs = take (k * P) xs @ take P (drop (k * P) xs)"
    by (simp add: take_add [symmetric] add.commute)
  have l1: "length (take (k * P) xs) = k * P" using le by simp
  have l2: "length (take P (drop (k * P) xs)) = P" using le' by simp
  have g: "with_pools pl (int P) (0 + int (length (take (k * P) xs))) (take P (drop (k * P) xs))
           = concat (take P (drop (k * P) xs)) @ [pl]"
    using assms(1) unfolding l1 by (intro with_pools_group) (simp_all only: l2, simp_all)
  show ?case
    unfolding t with_pools_append g using Suc.IH [OF le] by simp
qed

lemma with_pools_grouped:
  assumes "0 < P"
  shows "with_pools pl (int P) 0 xs =
         concat (map (\<lambda>g. concat (take P (drop (g * P) xs)) @ [pl]) [0 ..< length xs div P])
         @ concat (drop (length xs div P * P) xs)"
proof -
  let ?K = "length xs div P"
  have le: "?K * P \<le> length xs" by simp
  have r: "with_pools pl (int P) (0 + int (length (take (?K * P) xs))) (drop (?K * P) xs)
           = concat (drop (?K * P) xs)"
  proof (rule with_pools_no_pool)
    show "0 < int P" using assms by simp
    have "length (drop (?K * P) xs) = length xs mod P"
      by (simp add: minus_div_mult_eq_mod)
    moreover have "length xs mod P < P" using assms by simp
    moreover have "length (take (?K * P) xs) = ?K * P" using le by simp
    ultimately show "(0 + int (length (take (?K * P) xs))) mod int P
        + int (length (drop (?K * P) xs)) < int P"
      by simp
  qed
  have "with_pools pl (int P) 0 xs = with_pools pl (int P) 0 (take (?K * P) xs @ drop (?K * P) xs)"
    by simp
  also have "\<dots> = with_pools pl (int P) 0 (take (?K * P) xs) @ concat (drop (?K * P) xs)"
    unfolding with_pools_append r ..
  finally show ?thesis
    using with_pools_groups [OF assms le, of pl] by simp
qed


lemma getitem_Inr: "map_of d k \<noteq> None \<Longrightarrow> getitem d k = Inr (the (map_of d k))"
  by (auto simp: getitem_def)

lemma length_concat_const:
  "(\<And>x. x \<in> set xs \<Longrightarrow> length (f x) = n) \<Longrightarrow> length (concat (map f xs)) = length xs * n"
  by (induction xs) simp_all

lemma length_spec_units:
  "0 < pool_every a \<Longrightarrow>
   length (spec_units a) = length (channels a) + length (channels a) div nat (pool_every a)"
proof -
  assume p: "0 < pool_every a"
  let ?N = "length (channels a)" and ?P = "nat (pool_every a)"
  have "length (concat (map (\<lambda>g. map (spec_stage a) [g * ?P ..< g * ?P + ?P] @ [[spec_pool a]])
          [0 ..< ?N div ?P])) = length [0 ..< ?N div ?P] * (?P + 1)"
    by (rule length_concat_const) simp
  then have "length (spec_units a) = ?N div ?P * (?P + 1) + ?N mod ?P"
    by (simp add: spec_units_def Let_def)
  also have "\<dots> = ?N + ?N div ?P"
    by (simp add: algebra_simps)
  finally show ?thesis .
qed

lemma zip_channels_nth:
  assumes "i < length chs"
  shows "zip ([c] @ butlast chs) chs ! i = (([c] @ chs) ! i, chs ! i)"
proof -
  have "([c] @ butlast chs) ! i = ([c] @ chs) ! i"
    using assms by (cases i) (simp_all add: nth_butlast)
  moreover have "i < length (zip ([c] @ butlast chs) chs)" using assms by simp
  ultimately show ?thesis by simp
qed

lemma length_zip_channels: "length (zip ([c] @ butlast chs) chs) = length chs"
  by simp


lemma group_le:
  assumes "g < N div P"
  shows "g * P + P \<le> (N::nat)"
proof -
  have "Suc g \<le> N div P" using assms by simp
  then have "Suc g * P \<le> N div P * P" by (rule mult_le_mono1)
  also have "\<dots> \<le> N" by simp
  finally show ?thesis by (simp add: add.commute)
qed

lemma concat_concat_map: "concat (concat xss) = concat (map concat xss)"
  by (induction xss) simp_all

lemma with_pools_units:
  assumes "0 < P"
  shows "with_pools pl (int P) 0 (map f [0 ..< N]) =
         concat (concat (map (\<lambda>g. map f [g * P ..< g * P + P] @ [[pl]]) [0 ..< N div P])
                 @ map f [N div P * P ..< N div P * P + N mod P])"
proof -
  let ?xs = "map f [0 ..< N]"
  have grp: "concat (take P (drop (g * P) ?xs)) @ [pl]
             = concat (map f [g * P ..< g * P + P] @ [[pl]])" if "g \<in> set [0 ..< N div P]" for g
  proof -
    have "g * P + P \<le> N" using that by (intro group_le) simp
    then have "take P (drop (g * P) ?xs) = map f [g * P ..< g * P + P]"
      by (simp add: take_map drop_map)
    then show ?thesis by simp
  qed
  have rest: "drop (length ?xs div P * P) ?xs = map f [N div P * P ..< N div P * P + N mod P]"
    by (simp add: drop_map)
  have "with_pools pl (int P) 0 ?xs =
        concat (map (\<lambda>g. concat (take P (drop (g * P) ?xs)) @ [pl]) [0 ..< N div P])
        @ concat (drop (length ?xs div P * P) ?xs)"
    using with_pools_grouped [OF assms, of pl ?xs] by simp
  also have "map (\<lambda>g. concat (take P (drop (g * P) ?xs)) @ [pl]) [0 ..< N div P]
           = map (\<lambda>g. concat (map f [g * P ..< g * P + P] @ [[pl]])) [0 ..< N div P]"
    by (rule map_cong [OF refl]) (rule grp)
  finally show ?thesis
    unfolding rest by (simp add: concat_concat_map comp_def)
qed

lemma stages_of_zip:
  "map (conv_act (conv_params a) (spec_act a)) (zip ([fst (in_size a)] @ butlast (channels a)) (channels a))
   = map (spec_stage a) [0 ..< length (channels a)]"
proof (rule nth_equalityI)
  show "length (map (conv_act (conv_params a) (spec_act a))
          (zip ([fst (in_size a)] @ butlast (channels a)) (channels a)))
        = length (map (spec_stage a) [0 ..< length (channels a)])"
    by simp
next
  fix i
  assume "i < length (map (conv_act (conv_params a) (spec_act a))
          (zip ([fst (in_size a)] @ butlast (channels a)) (channels a)))"
  then have i: "i < length (channels a)" by simp
  then have "i < length (zip ([fst (in_size a)] @ butlast (channels a)) (channels a))" by simp
  then show "map (conv_act (conv_params a) (spec_act a))
          (zip ([fst (in_size a)] @ butlast (channels a)) (channels a)) ! i
        = map (spec_stage a) [0 ..< length (channels a)] ! i"
    using i zip_channels_nth [OF i, of "fst (in_size a)"]
    by (simp add: conv_act_def spec_stage_def del: nth_zip append.simps)
qed

lemma CNN_make_feature_extractor_valid:
  assumes "valid_architecture acts a"
  shows "CNN_make_feature_extractor acts a =
     Inr \<lparr>seq = concat (spec_units a),
          out_w = PyInt (dim_run (conv_kernel a) (conv_padding a) (conv_stride a) (pool_kernel a)
                    (pool_every a) 0 (length (channels a)) (snd (snd (in_size a)))),
          out_h = PyInt (dim_run (conv_kernel a) (conv_padding a) (conv_stride a) (pool_kernel a)
                    (pool_every a) 0 (length (channels a)) (fst (snd (in_size a))))\<rparr>"
proof -
  obtain c h w where sz: "in_size a = (c, h, w)" by (cases "in_size a") auto
  have P: "0 < nat (pool_every a)" "int (nat (pool_every a)) = pool_every a" "pool_every a \<noteq> 0"
    using assms by (simp_all add: valid_architecture_def)
  have pf: "getitem POOLINGS (pooling_type a) =
        Inr (if pooling_type a = ''avg'' then AvgPool2d else MaxPool2d)"
    using assms by (auto simp: valid_architecture_def getitem_def POOLINGS_def)
  have act: "activation acts (activation_type a) (activation_params a) = Inr (spec_act a)"
    using assms by (simp add: valid_architecture_def activation_def spec_act_def)
  have pl: "(if pooling_type a = ''avg'' then AvgPool2d else MaxPool2d) (pooling_params a) = spec_pool a"
    by (simp add: spec_pool_def)
  have k: "getitem (conv_params a) ''kernel_size'' = Inr (conv_kernel a)"
    and p: "getitem (conv_params a) ''padding'' = Inr (conv_padding a)"
    and s: "getitem (conv_params a) ''stride'' = Inr (conv_stride a)"
    and pk: "getitem (pooling_params a) ''kernel_size'' = Inr (pool_kernel a)"
    using assms
    by (simp_all add: valid_architecture_def getitem_Inr conv_kernel_def conv_padding_def
        conv_stride_def pool_kernel_def)
  have s0: "conv_stride a \<noteq> 0" and pk0: "pool_kernel a \<noteq> 0"
    using assms by (auto simp: valid_architecture_def conv_stride_def pool_kernel_def)
  have rng: "\<bar>conv_stride a\<bar> < 2 ^ 53" "\<bar>pool_kernel a\<bar> < 2 ^ 53"
    and start: "max \<bar>h\<bar> \<bar>w\<bar> + int (length (channels a)) * (\<bar>conv_kernel a\<bar> + 2 * \<bar>conv_padding a\<bar>) < 2 ^ 53"
    using assms by (simp_all add: valid_architecture_def dims_in_range_def sz)
  have units: "with_pools (spec_pool a) (pool_every a) 0
        (map (conv_act (conv_params a) (spec_act a))
           (zip ([fst (in_size a)] @ butlast (channels a)) (channels a)))
      = concat (spec_units a)"
    unfolding stages_of_zip spec_units_def Let_def
    using with_pools_units [OF P(1), of "spec_pool a" "spec_stage a" "length (channels a)"]
    by (simp only: P(2))
  have loop: "fe_loop a (if pooling_type a = ''avg'' then AvgPool2d else MaxPool2d) (spec_act a)
        (zip ([c] @ butlast (channels a)) (channels a))
        \<lparr>layers = [], conv_out_w = w, conv_out_h = h, pool_count = 0\<rparr> =
      Inr \<lparr>layers = [] @ with_pools (spec_pool a) (pool_every a) 0
               (map (conv_act (conv_params a) (spec_act a))
                  (zip ([c] @ butlast (channels a)) (channels a))),
           conv_out_w = dim_run (conv_kernel a) (conv_padding a) (conv_stride a) (pool_kernel a)
               (pool_every a) 0 (length (zip ([c] @ butlast (channels a)) (channels a))) w,
           conv_out_h = dim_run (conv_kernel a) (conv_padding a) (conv_stride a) (pool_kernel a)
               (pool_every a) 0 (length (zip ([c] @ butlast (channels a)) (channels a))) h,
           pool_count = 0 + int (length (zip ([c] @ butlast (channels a)) (channels a)))\<rparr>"
    using fe_loop_valid [OF k p s s0 pk pk0 P(3) rng,
        of "\<lparr>layers = [], conv_out_w = w, conv_out_h = h, pool_count = 0\<rparr>"
           "zip ([c] @ butlast (channels a)) (channels a)"
           "if pooling_type a = ''avg'' then AvgPool2d else MaxPool2d" "spec_act a"]
      start pl
    by (simp del: append.simps)
  show ?thesis
    unfolding CNN_make_feature_extractor_def sz
    using units
    by (simp add: pf act loop sz del: append.simps)
qed


lemma scenario_valid: "valid_architecture [''relu'', ''lrelu''] scenario_args"
  by (simp add: valid_architecture_def dims_in_range_def conv_kernel_def conv_padding_def
      conv_stride_def pool_kernel_def scenario_args_def)

text \<open>
  C1. For every valid architecture (a channel sequence of length \<open>N\<close>, a pooling interval
  \<open>P\<close>, supported kinds, the parameters the builder reads, dimensions in the range of
  exact doubles) the plain feature extractor is built, and its pipeline is
  \<open>[(CONV -> ACT)*P -> POOL]\<close> repeated \<open>N div P\<close> times, followed by \<open>N mod P\<close>
  trailing \<open>(CONV -> ACT)\<close> stages with no pooling layer after them: \<open>N + N div P\<close>
  stage-units in all.
\<close>

theorem CNN_pipeline_shape:
  assumes "valid_architecture acts a"
  shows "\<exists>ex. CNN_make_feature_extractor acts a = Inr ex
           \<and> seq ex = concat (spec_units a)
           \<and> length (spec_units a)
               = length (channels a) + length (channels a) div nat (pool_every a)"
  using CNN_make_feature_extractor_valid [OF assms] length_spec_units [of a] assms
  by (simp add: valid_architecture_def)

theorem CNN_pipeline_shape_witness:
  "valid_architecture [''relu'', ''lrelu''] scenario_args
   \<and> (\<exists>ex. CNN_make_feature_extractor [''relu'', ''lrelu''] scenario_args = Inr ex
         \<and> seq ex = concat (spec_units scenario_args)
         \<and> length (spec_units scenario_args) = 4)"
proof -
  have n: "length (channels scenario_args)
             + length (channels scenario_args) div nat (pool_every scenario_args) = 4"
    by (simp add: scenario_args_def)
  show ?thesis
    using scenario_valid CNN_pipeline_shape [OF scenario_valid] unfolding n by simp
qed

text \<open>
  C3. While the plain feature extractor is built, the running height and width are each
  updated after every convolution stage to \<open>floor((dim - kernel_size + 2 * padding) / stride)\<close>,
  with no \<open>+ 1\<close>, and after every pooling stage to \<open>floor(dim / pool_kernel_size)\<close>: in
  one pass of the loop body, and so in the values the builder records at the end. The
  dimensions are in the range where the double quotient of the source is exact (below
  \<open>2^53\<close> in magnitude).
\<close>

theorem dimension_updates:
  assumes "valid_architecture acts a"
  shows "(\<bar>conv_out_w st - conv_kernel a + 2 * conv_padding a\<bar> < 2 ^ 53
          \<and> \<bar>conv_out_h st - conv_kernel a + 2 * conv_padding a\<bar> < 2 ^ 53 \<longrightarrow>
          (\<exists>st'. fe_body a pool_func phi cc st = Inr st'
            \<and> conv_out_w st' =
                (if (pool_count st + 1) mod pool_every a = 0
                 then ((conv_out_w st - conv_kernel a + 2 * conv_padding a) div conv_stride a)
                        div pool_kernel a
                 else (conv_out_w st - conv_kernel a + 2 * conv_padding a) div conv_stride a)
            \<and> conv_out_h st' =
                (if (pool_count st + 1) mod pool_every a = 0
                 then ((conv_out_h st - conv_kernel a + 2 * conv_padding a) div conv_stride a)
                        div pool_kernel a
                 else (conv_out_h st - conv_kernel a + 2 * conv_padding a) div conv_stride a)))
       \<and> (\<exists>ex. CNN_make_feature_extractor acts a = Inr ex
            \<and> out_w ex = PyInt (dim_run (conv_kernel a) (conv_padding a) (conv_stride a)
                  (pool_kernel a) (pool_every a) 0 (length (channels a)) (snd (snd (in_size a))))
            \<and> out_h ex = PyInt (dim_run (conv_kernel a) (conv_padding a) (conv_stride a)
                  (pool_kernel a) (pool_every a) 0 (length (channels a)) (fst (snd (in_size a)))))"
proof -
  have k: "getitem (conv_params a) ''kernel_size'' = Inr (conv_kernel a)"
    and p: "getitem (conv_params a) ''padding'' = Inr (conv_padding a)"
    and s: "getitem (conv_params a) ''stride'' = Inr (conv_stride a)"
    and pk: "getitem (pooling_params a) ''kernel_size'' = Inr (pool_kernel a)"
    using assms
    by (simp_all add: valid_architecture_def getitem_Inr conv_kernel_def conv_padding_def
        conv_stride_def pool_kernel_def)
  have s0: "conv_stride a \<noteq> 0" and pk0: "pool_kernel a \<noteq> 0" and P: "pool_every a \<noteq> 0"
    using assms by (auto simp: valid_architecture_def conv_stride_def pool_kernel_def)
  have rng: "\<bar>conv_stride a\<bar> < 2 ^ 53" "\<bar>pool_kernel a\<bar> < 2 ^ 53"
    using assms by (simp_all add: valid_architecture_def dims_in_range_def)
  have body: "\<exists>st'. fe_body a pool_func phi cc st = Inr st'
            \<and> conv_out_w st' =
                (if (pool_count st + 1) mod pool_every a = 0
                 then ((conv_out_w st - conv_kernel a + 2 * conv_padding a) div conv_stride a)
                        div pool_kernel a
                 else (conv_out_w st - conv_kernel a + 2 * conv_padding a) div conv_stride a)
            \<and> conv_out_h st' =
                (if (pool_count st + 1) mod pool_every a = 0
                 then ((conv_out_h st - conv_kernel a + 2 * conv_padding a) div conv_stride a)
                        div pool_kernel a
                 else (conv_out_h st - conv_kernel a + 2 * conv_padding a) div conv_stride a)"
    if "\<bar>conv_out_w st - conv_kernel a + 2 * conv_padding a\<bar> < 2 ^ 53"
      and "\<bar>conv_out_h st - conv_kernel a + 2 * conv_padding a\<bar> < 2 ^ 53"
    by (simp add: fe_body_valid [OF k p s s0 pk pk0 P rng that])
  show ?thesis
    using body by (simp add: CNN_make_feature_extractor_valid [OF assms])
qed

theorem dimension_updates_witness:
  "valid_architecture [''relu'', ''lrelu''] scenario_args
   \<and> \<bar>31 - conv_kernel scenario_args + 2 * conv_padding scenario_args\<bar> < 2 ^ 53
   \<and> (\<exists>st'. fe_body scenario_args MaxPool2d (Activation ''relu'' []) (16, 32)
               \<lparr>layers = [], conv_out_w = 31, conv_out_h = 31, pool_count = 1\<rparr> = Inr st'
            \<and> conv_out_w st' = 15 \<and> conv_out_h st' = 15)
   \<and> (\<exists>ex. CNN_make_feature_extractor [''relu'', ''lrelu''] scenario_args = Inr ex
            \<and> out_w ex = PyInt 14 \<and> out_h ex = PyInt 14)"
proof -
  have c: "conv_kernel scenario_args = 3" "conv_padding scenario_args = 1"
    "conv_stride scenario_args = 1" "pool_kernel scenario_args = 2"
    "pool_every scenario_args = 2" "length (channels scenario_args) = Suc (Suc (Suc 0))"
    "in_size scenario_args = (3, 32, 32)"
    by (simp_all add: scenario_args_def conv_kernel_def conv_padding_def conv_stride_def
        pool_kernel_def)
  show ?thesis
    using scenario_valid
      dimension_updates [OF scenario_valid, of "\<lparr>layers = [], conv_out_w = 31, conv_out_h = 31, pool_count = 1\<rparr>"
        MaxPool2d "Activation ''relu'' []" "(16, 32)"]
    unfolding c by simp
qed

section \<open>Residual blocks\<close>

lemma main_loop_run:
  assumes "\<And>j. Suc j < length idx \<Longrightarrow> Suc (idx ! j) \<noteq> length ks"
  shows "main_loop all ks bn dr phi idx acc =
         acc @ concat (map (\<lambda>i.
           [Conv2dSame (all ! i) (all ! (i + 1)) (ks ! i) True]
           @ (if Suc i = length ks then []
              else (if 0 < dr then [Dropout2d dr] else [])
                   @ (if bn then [BatchNorm2d (all ! (i + 1))] else [])
                   @ [phi])) idx)"
  using assms
proof (induction idx arbitrary: acc)
  case Nil
  show ?case by simp
next
  case (Cons i rest)
  show ?case
  proof (cases "Suc i = length ks")
    case True
    have "rest = []"
    proof (rule ccontr)
      assume "rest \<noteq> []"
      then have "Suc 0 < length (i # rest)" by (cases rest) simp_all
      from Cons.prems [OF this] True show False by simp
    qed
    with True show ?thesis by (auto simp: Let_def)
  next
    case False
    have tl: "\<And>j. Suc j < length rest \<Longrightarrow> Suc (rest ! j) \<noteq> length ks"
      using Cons.prems [of "Suc _"] by simp
    have ne: "int i \<noteq> int (length ks) - 1" using False by auto
    show ?thesis
      using False ne by (simp add: Let_def Cons.IH [OF tl])
  qed
qed

lemma ResidualBlock_init_valid:
  assumes "valid_block acts chs ks kw"
  shows "ResidualBlock_init acts cin chs ks kw =
         Inr (spec_main_path cin chs ks kw,
              if cin = last chs then [Identity] else [Conv2dSame cin (last chs) 1 False])"
proof -
  have len: "length chs = length ks" and ne: "chs \<noteq> []" "ks \<noteq> []"
    and odd: "list_all (\<lambda>x. x mod 2 = 1) ks" and act: "act_type kw \<in> set acts"
    using assms by (simp_all add: valid_block_def list_all_iff odd_iff_mod_2_eq_one)
  let ?phi = "Activation (act_type kw) (act_params kw)"
  let ?F = "\<lambda>i. [Conv2dSame (([cin] @ chs) ! i) (([cin] @ chs) ! (i + 1)) (ks ! i) True]
           @ (if Suc i = length ks then []
              else (if 0 < dropout kw then [Dropout2d (dropout kw)] else [])
                   @ (if batchnorm kw then [BatchNorm2d (([cin] @ chs) ! (i + 1))] else [])
                   @ [?phi])"
  have a: "main_loop ([cin] @ chs) ks (batchnorm kw) (dropout kw) ?phi [0 ..< length ks] []
        = [] @ concat (map ?F [0 ..< length ks])"
    by (rule main_loop_run) simp
  have b: "map ?F [0 ..< length ks] = map (spec_conv_group cin chs ks kw) [0 ..< length ks]"
    by (rule map_cong [OF refl]) (simp add: spec_conv_group_def len nth_Cons')
  have m: "main_loop ([cin] @ chs) ks (batchnorm kw) (dropout kw) ?phi [0 ..< length ks] []
           = spec_main_path cin chs ks kw"
    unfolding spec_main_path_def len a b by (rule append_Nil)
  show ?thesis
    using ne len odd act m by (simp add: ResidualBlock_init_def activation_def Let_def)
qed


text \<open>
  C5. For every valid residual block, the main path is the convolutions
  \<open>channels[i-1] -> channels[i]\<close> with \<open>kernel_sizes[i]\<close>, same-size padding and bias,
  where every convolution but the last is followed by dropout (only if the probability
  is positive), then batch normalization (only if enabled), then the configured
  activation, in that order, and the last convolution is followed by none of them.
\<close>

theorem residual_main_path:
  assumes "valid_block acts chs ks kw"
  shows "\<exists>short. ResidualBlock_init acts cin chs ks kw = Inr (spec_main_path cin chs ks kw, short)"
  by (simp add: ResidualBlock_init_valid [OF assms])

theorem residual_main_path_witness:
  "valid_block [''relu'', ''lrelu''] [16, 32] [3, 5] lrelu_kwargs
   \<and> (\<exists>short. ResidualBlock_init [''relu'', ''lrelu''] 3 [16, 32] [3, 5] lrelu_kwargs =
         Inr ([Conv2dSame 3 16 3 True, Dropout2d (1 / 2), BatchNorm2d 16,
               Activation ''lrelu'' [(''negative_slope'', 1 / 100)],
               Conv2dSame 16 32 5 True], short))"
proof -
  have v: "valid_block [''relu'', ''lrelu''] [16, 32] [3, 5] lrelu_kwargs"
    by (simp add: valid_block_def lrelu_kwargs_def)
  have m: "spec_main_path 3 [16, 32] [3, 5] lrelu_kwargs =
        [Conv2dSame 3 16 3 True, Dropout2d (1 / 2), BatchNorm2d 16,
         Activation ''lrelu'' [(''negative_slope'', 1 / 100)], Conv2dSame 16 32 5 True]"
    by (simp add: spec_main_path_def spec_conv_group_def lrelu_kwargs_def upt_rec)
  show ?thesis
    using v residual_main_path [OF v, of 3] unfolding m by simp
qed

text \<open>
  C6. For every valid residual block, the shortcut path is the identity, with no learned
  parameters, if and only if the input channel count equals the last entry of the
  channel sequence; when they differ it is exactly one 1x1 convolution without bias
  from the input channels to that last entry, with same-size padding.
\<close>

theorem residual_shortcut_path:
  assumes "valid_block acts chs ks kw"
  shows "\<exists>main short. ResidualBlock_init acts cin chs ks kw = Inr (main, short)
           \<and> (short = [Identity] \<longleftrightarrow> cin = last chs)
           \<and> (cin = last chs \<longrightarrow> \<not> list_ex has_parameters short)
           \<and> (cin \<noteq> last chs \<longrightarrow> short = [Conv2dSame cin (last chs) 1 False])"
  by (simp add: ResidualBlock_init_valid [OF assms])

theorem residual_shortcut_path_witness:
  "valid_block [''relu'', ''lrelu''] [16, 32] [3, 5] lrelu_kwargs
   \<and> (\<exists>main. ResidualBlock_init [''relu'', ''lrelu''] 32 [16, 32] [3, 5] lrelu_kwargs
                = Inr (main, [Identity]))
   \<and> (\<exists>main. ResidualBlock_init [''relu'', ''lrelu''] 3 [16, 32] [3, 5] lrelu_kwargs
                = Inr (main, [Conv2dSame 3 32 1 False]))"
proof -
  have v: "valid_block [''relu'', ''lrelu''] [16, 32] [3, 5] lrelu_kwargs"
    by (simp add: valid_block_def lrelu_kwargs_def)
  show ?thesis
    using v residual_shortcut_path [OF v, of 32] residual_shortcut_path [OF v, of 3]
    by auto
qed

text \<open>
  C4. For every in/out channel count \<open>C\<close>, non-empty inner channel sequence
  \<open>[c1..ck]\<close> and inner kernel sizes of the same length, constructing a bottleneck block
  gives what constructing a plain residual block gives with input channels \<open>C\<close>, channel
  sequence \<open>[c1, c1, c2, ..., ck, C]\<close> and kernel sizes \<open>[1, k1, ..., kk, 1]\<close>; in
  particular for two inner convolutions.
\<close>

theorem bottleneck_as_residual:
  assumes "inner_channels \<noteq> []" and "length inner_channels = length inner_kernel_sizes"
  shows "ResidualBottleneckBlock_init acts C inner_channels inner_kernel_sizes kw =
           ResidualBlock_init acts C ([hd inner_channels] @ inner_channels @ [C])
             ([1] @ inner_kernel_sizes @ [1]) kw
       \<and> ResidualBottleneckBlock_init acts C [c1, c2] [k1, k2] kw =
           ResidualBlock_init acts C [c1, c1, c2, C] [1, k1, k2, 1] kw"
proof -
  have "0 < length inner_channels" using assms(1) by simp
  then show ?thesis
    using assms by (simp add: ResidualBottleneckBlock_init_def hd_conv_nth)
qed

theorem bottleneck_as_residual_witness:
  "[16, 32] \<noteq> ([] :: int list) \<and> length [16, 32 :: int] = length [3, 5 :: int]
   \<and> ResidualBottleneckBlock_init [''relu'', ''lrelu''] 64 [16, 32] [3, 5] lrelu_kwargs
       = ResidualBlock_init [''relu'', ''lrelu''] 64 [16, 16, 32, 64] [1, 3, 5, 1] lrelu_kwargs
   \<and> ResidualBlock_init [''relu'', ''lrelu''] 64 [16, 16, 32, 64] [1, 3, 5, 1] lrelu_kwargs
       = Inr ([Conv2dSame 64 16 1 True, Dropout2d (1 / 2), BatchNorm2d 16,
               Activation ''lrelu'' [(''negative_slope'', 1 / 100)],
               Conv2dSame 16 16 3 True, Dropout2d (1 / 2), BatchNorm2d 16,
               Activation ''lrelu'' [(''negative_slope'', 1 / 100)],
               Conv2dSame 16 32 5 True, Dropout2d (1 / 2), BatchNorm2d 32,
               Activation ''lrelu'' [(''negative_slope'', 1 / 100)],
               Conv2dSame 32 64 1 True],
              [Identity])"
proof -
  have v: "valid_block [''relu'', ''lrelu''] [16, 16, 32, 64] [1, 3, 5, 1] lrelu_kwargs"
    by (simp add: valid_block_def lrelu_kwargs_def)
  have m: "spec_main_path 64 [16, 16, 32, 64] [1, 3, 5, 1] lrelu_kwargs =
        [Conv2dSame 64 16 1 True, Dropout2d (1 / 2), BatchNorm2d 16,
         Activation ''lrelu'' [(''negative_slope'', 1 / 100)],
         Conv2dSame 16 16 3 True, Dropout2d (1 / 2), BatchNorm2d 16,
         Activation ''lrelu'' [(''negative_slope'', 1 / 100)],
         Conv2dSame 16 32 5 True, Dropout2d (1 / 2), BatchNorm2d 32,
         Activation ''lrelu'' [(''negative_slope'', 1 / 100)],
         Conv2dSame 32 64 1 True]"
    by (simp add: spec_main_path_def spec_conv_group_def lrelu_kwargs_def upt_rec)
  show ?thesis
    using bottleneck_as_residual [of "[16, 32]" "[3, 5]" "[''relu'', ''lrelu'']" 64 lrelu_kwargs]
    by (simp add: ResidualBlock_init_valid [OF v] m)
qed

section \<open>Construction errors\<close>

lemma in_POOLINGS: "p \<in> fst ` set POOLINGS \<longleftrightarrow> p = ''avg'' \<or> p = ''max''"
  by (auto simp: POOLINGS_def)

lemma CNN_init_with_unsupported:
  assumes "activation_type a \<notin> set acts \<or> \<not> (pooling_type a = ''avg'' \<or> pooling_type a = ''max'')"
  shows "CNN_init_with built T acts a r =
     (Inl (if channels a = [] \<or> hidden_dims a = [] then AssertionError
           else ValueError ''Unsupported activation or pooling type''), r)"
  using assms by (auto simp: CNN_init_with_def in_POOLINGS)

text \<open>
  C9. When the activation kind is not a key of the activation table or the pooling kind
  is not \<open>'max'\<close> or \<open>'avg'\<close>, construction of a \<open>CNN\<close>, \<open>ResNet\<close> or \<open>YourCNN\<close> fails with
  a configuration error (the failed assertion on the two sequences, else the
  \<open>ValueError\<close> of line 66) whatever the builder and the library would do, so before any
  layer is built; a \<open>ResidualBlock\<close> with an unsupported activation kind fails likewise.
  With supported kinds the check raises nothing: a failure of construction is then the
  failure of the feature-extractor builder or of the classifier stage, and a
  \<open>ResidualBlock\<close> never raises its \<open>ValueError\<close>.
\<close>

theorem unsupported_kinds_fail_first:
  "((activation_type a \<notin> set acts \<or> \<not> (pooling_type a = ''avg'' \<or> pooling_type a = ''max'')) \<longrightarrow>
      (let err = (if channels a = [] \<or> hidden_dims a = [] then AssertionError
                  else ValueError ''Unsupported activation or pooling type'')
       in CNN_init_with built T acts a r = (Inl err, r)
          \<and> CNN_init T acts a r = (Inl err, r)
          \<and> ResNet_init T acts a ra r = (Inl err, r)
          \<and> YourCNN_init T acts a ra r = (Inl err, r)))
   \<and> ((activation_type a \<in> set acts \<and> (pooling_type a = ''avg'' \<or> pooling_type a = ''max'')
        \<and> channels a \<noteq> [] \<and> hidden_dims a \<noteq> []
        \<and> fst (CNN_init_with built T acts a r) = Inl e) \<longrightarrow>
       (built = Inl e
        \<or> (\<exists>ex. built = Inr ex \<and> fst (CNN_make_mlp T acts a True (seq ex) r) = Inl e)))
   \<and> (act_type kw \<notin> set acts \<longrightarrow>
       ResidualBlock_init acts cin chs ks kw =
         Inl (if chs = [] \<or> ks = [] \<or> length chs \<noteq> length ks \<or> \<not> list_all odd ks
              then AssertionError else ValueError ''Unsupported activation type''))
   \<and> (act_type kw \<in> set acts \<longrightarrow>
       ResidualBlock_init acts cin chs ks kw \<noteq> Inl (ValueError ''Unsupported activation type''))"
proof (intro conjI impI)
  assume u: "activation_type a \<notin> set acts \<or> \<not> (pooling_type a = ''avg'' \<or> pooling_type a = ''max'')"
  show "let err = (if channels a = [] \<or> hidden_dims a = [] then AssertionError
                  else ValueError ''Unsupported activation or pooling type'')
       in CNN_init_with built T acts a r = (Inl err, r)
          \<and> CNN_init T acts a r = (Inl err, r)
          \<and> ResNet_init T acts a ra r = (Inl err, r)
          \<and> YourCNN_init T acts a ra r = (Inl err, r)"
    unfolding Let_def CNN_init_def ResNet_init_def YourCNN_init_def
    by (simp only: CNN_init_with_unsupported [OF u] simp_thms)
next
  assume s: "activation_type a \<in> set acts \<and> (pooling_type a = ''avg'' \<or> pooling_type a = ''max'')
        \<and> channels a \<noteq> [] \<and> hidden_dims a \<noteq> []
        \<and> fst (CNN_init_with built T acts a r) = Inl e"
  then show "built = Inl e
        \<or> (\<exists>ex. built = Inr ex \<and> fst (CNN_make_mlp T acts a True (seq ex) r) = Inl e)"
    by (auto simp: CNN_init_with_def in_POOLINGS split: sum.splits prod.splits)
next
  assume "act_type kw \<notin> set acts"
  then show "ResidualBlock_init acts cin chs ks kw =
         Inl (if chs = [] \<or> ks = [] \<or> length chs \<noteq> length ks \<or> \<not> list_all odd ks
              then AssertionError else ValueError ''Unsupported activation type'')"
    by (simp add: ResidualBlock_init_def list_all_iff odd_iff_mod_2_eq_one)
next
  assume "act_type kw \<in> set acts"
  then show "ResidualBlock_init acts cin chs ks kw \<noteq> Inl (ValueError ''Unsupported activation type'')"
    by (simp add: ResidualBlock_init_def activation_def Let_def)
qed

theorem unsupported_kinds_fail_first_witness:
  "(activation_type tanh_args \<notin> set [''relu'', ''lrelu''])
   \<and> CNN_init shape_torch [''relu'', ''lrelu''] tanh_args 0
       = (Inl (ValueError ''Unsupported activation or pooling type''), 0)
   \<and> ResNet_init shape_torch [''relu'', ''lrelu''] tanh_args plain_resnet 0
       = (Inl (ValueError ''Unsupported activation or pooling type''), 0)
   \<and> CNN_make_feature_extractor [''relu'', ''lrelu'', ''tanh''] tanh_args = Inl (KeyError ''padding'')
   \<and> activation_type bare_args \<in> set [''relu'', ''lrelu'']
   \<and> fst (CNN_init shape_torch [''relu'', ''lrelu''] bare_args 0) = Inl (KeyError ''padding'')
   \<and> CNN_make_feature_extractor [''relu'', ''lrelu''] bare_args = Inl (KeyError ''padding'')
   \<and> act_type lrelu_kwargs \<notin> set [''relu'']
   \<and> ResidualBlock_init [''relu''] 3 [16] [3] lrelu_kwargs = Inl (ValueError ''Unsupported activation type'')
   \<and> act_type lrelu_kwargs \<in> set [''relu'', ''lrelu'']
   \<and> ResidualBlock_init [''relu'', ''lrelu''] 3 [16] [3] lrelu_kwargs
        \<noteq> Inl (ValueError ''Unsupported activation type'')"
proof -
  have t: "activation_type tanh_args = ''tanh''" "channels tanh_args = [16, 32, 64]"
    "hidden_dims tanh_args = [10]" "pooling_type tanh_args = ''max''"
    by (simp_all add: tanh_args_def scenario_args_def)
  have b: "activation_type bare_args = ''relu''" "channels bare_args = [16, 32, 64]"
    "hidden_dims bare_args = [10]" "pooling_type bare_args = ''max''"
    by (simp_all add: bare_args_def scenario_args_def)
  have k: "act_type lrelu_kwargs = ''lrelu''"
    by (simp add: lrelu_kwargs_def)
  have fe1: "CNN_make_feature_extractor [''relu'', ''lrelu'', ''tanh''] tanh_args
             = Inl (KeyError ''padding'')"
    by (simp add: CNN_make_feature_extractor_def tanh_args_def scenario_args_def
        getitem_def POOLINGS_def activation_def fe_body_def conv_dim_def new_Conv2d_def)
  have fe2: "CNN_make_feature_extractor [''relu'', ''lrelu''] bare_args
             = Inl (KeyError ''padding'')"
    by (simp add: CNN_make_feature_extractor_def bare_args_def scenario_args_def
        getitem_def POOLINGS_def activation_def fe_body_def conv_dim_def new_Conv2d_def)
  have i: "fst (CNN_init shape_torch [''relu'', ''lrelu''] bare_args 0) = Inl (KeyError ''padding'')"
    by (simp add: CNN_init_def CNN_init_with_def fe2 in_POOLINGS b)
  have c1: "CNN_init shape_torch [''relu'', ''lrelu''] tanh_args 0
       = (Inl (ValueError ''Unsupported activation or pooling type''), 0)"
    and c2: "ResNet_init shape_torch [''relu'', ''lrelu''] tanh_args plain_resnet 0
       = (Inl (ValueError ''Unsupported activation or pooling type''), 0)"
    using unsupported_kinds_fail_first [of tanh_args "[''relu'', ''lrelu'']"
        "CNN_make_feature_extractor [''relu'', ''lrelu''] tanh_args" shape_torch 0 plain_resnet
        "KeyError ''padding''" lrelu_kwargs 3 "[16]" "[3]"]
    by (simp_all add: t Let_def)
  have c3: "ResidualBlock_init [''relu''] 3 [16] [3] lrelu_kwargs
            = Inl (ValueError ''Unsupported activation type'')"
    using unsupported_kinds_fail_first [of bare_args "[''relu'']"
        "CNN_make_feature_extractor [''relu''] bare_args" shape_torch 0 plain_resnet
        "KeyError ''padding''" lrelu_kwargs 3 "[16]" "[3]"]
    by (simp add: k)
  have c4: "ResidualBlock_init [''relu'', ''lrelu''] 3 [16] [3] lrelu_kwargs
            \<noteq> Inl (ValueError ''Unsupported activation type'')"
    using unsupported_kinds_fail_first [of bare_args "[''relu'', ''lrelu'']"
        "CNN_make_feature_extractor [''relu'', ''lrelu''] bare_args" shape_torch 0 plain_resnet
        "KeyError ''padding''" lrelu_kwargs 3 "[16]" "[3]"]
    by (simp add: k)
  have c5: "CNN_make_feature_extractor [''relu'', ''lrelu''] bare_args = Inl (KeyError ''padding'')
            \<or> (\<exists>ex. CNN_make_feature_extractor [''relu'', ''lrelu''] bare_args = Inr ex
                  \<and> fst (CNN_make_mlp shape_torch [''relu'', ''lrelu''] bare_args True (seq ex) 0)
                      = Inl (KeyError ''padding''))"
    using unsupported_kinds_fail_first [of bare_args "[''relu'', ''lrelu'']"
        "CNN_make_feature_extractor [''relu'', ''lrelu''] bare_args" shape_torch 0 plain_resnet
        "KeyError ''padding''" lrelu_kwargs 3 "[16]" "[3]"] i
    by (simp add: b CNN_init_def)
  show ?thesis
    using c1 c2 c3 c4 c5 fe1 fe2 i by (simp add: t b k)
qed

section \<open>Forward pass, feature-count probe and classifier head\<close>

lemma shape_torch_sel:
  "apply_layer shape_torch = (\<lambda>tr l x r.
        (case out_shape l (fst x) of
           Inl e \<Rightarrow> (Inl e, r)
         | Inr sh \<Rightarrow> (Inr (sh, App l (snd x)), r + draws tr l)))"
  "t_add shape_torch = (\<lambda>x y. if fst x = fst y then Inr (fst x, Add (snd x) (snd y)) else Inl RuntimeError)"
  "t_relu shape_torch = (\<lambda>x. (fst x, Relu (snd x)))"
  "t_zeros shape_torch = (\<lambda>sz. case sz of (c, h, w) \<Rightarrow>
        if c < 0 \<or> h < 0 \<or> w < 0 then Inl RuntimeError else Inr ([c, h, w], Zeros))"
  "t_unsqueeze shape_torch = (\<lambda>x. (1 # fst x, Unsqueeze (snd x)))"
  "t_numel shape_torch = (\<lambda>x. prod_list (fst x))"
  "t_flatten shape_torch = (\<lambda>x. case fst x of
          [] \<Rightarrow> Inl RuntimeError
        | b # rest \<Rightarrow>
            if b \<le> 0 \<or> prod_list rest \<le> 0 then Inl RuntimeError
            else Inr ([b, prod_list rest], Flatten (snd x)))"
  "t_shape shape_torch = fst"
  "mlp_init shape_torch = (\<lambda>head r. (None, r + length (dims head)))"
  "mlp_forward shape_torch = (\<lambda>m x. case fst x of
          [b, n] \<Rightarrow> if n = in_dim m then Inr ([b, last (dims m)], Head m (snd x)) else Inl RuntimeError
        | _ \<Rightarrow> Inl RuntimeError)"
  by (simp_all add: shape_torch_def)

text \<open>
  C7. For every residual block and every input \<open>x\<close>, the forward output is
  \<open>torch.relu\<close> applied to \<open>main_path(x) + shortcut_path(x)\<close>: the final activation is
  the rectified-linear one whatever activation kind the block was configured with.
\<close>

theorem residual_forward_relu:
  assumes "forward_seq T tr main x r = (Inr a, r1)"
    and "forward_seq T tr short x r1 = (Inr b, r2)"
    and "t_add T a b = Inr s"
  shows "forward_layer T tr (ResidualBlock main short) x r = (Inr (t_relu T s), r2)
       \<and> forward_layer T tr (ResidualBottleneckBlock main short) x r = (Inr (t_relu T s), r2)"
  using assms by simp

theorem residual_forward_relu_witness:
  "ResidualBlock_init [''relu'', ''lrelu''] 3 [4, 3] [3, 3] lrelu_kwargs =
     Inr ([Conv2dSame 3 4 3 True, Dropout2d (1 / 2), BatchNorm2d 4,
           Activation ''lrelu'' [(''negative_slope'', 1 / 100)], Conv2dSame 4 3 3 True],
          [Identity])
   \<and> forward_seq shape_torch True
        [Conv2dSame 3 4 3 True, Dropout2d (1 / 2), BatchNorm2d 4,
         Activation ''lrelu'' [(''negative_slope'', 1 / 100)], Conv2dSame 4 3 3 True]
        ([1, 3, 8, 8], Unsqueeze Zeros) 0
      = (Inr ([1, 3, 8, 8],
           App (Conv2dSame 4 3 3 True)
             (App (Activation ''lrelu'' [(''negative_slope'', 1 / 100)])
               (App (BatchNorm2d 4)
                 (App (Dropout2d (1 / 2)) (App (Conv2dSame 3 4 3 True) (Unsqueeze Zeros)))))), 1)
   \<and> forward_seq shape_torch True [Identity] ([1, 3, 8, 8], Unsqueeze Zeros) 1
      = (Inr ([1, 3, 8, 8], App Identity (Unsqueeze Zeros)), 1)
   \<and> forward_layer shape_torch True
        (ResidualBlock
           [Conv2dSame 3 4 3 True, Dropout2d (1 / 2), BatchNorm2d 4,
            Activation ''lrelu'' [(''negative_slope'', 1 / 100)], Conv2dSame 4 3 3 True]
           [Identity])
        ([1, 3, 8, 8], Unsqueeze Zeros) 0
      = (Inr ([1, 3, 8, 8],
           Relu (Add
             (App (Conv2dSame 4 3 3 True)
               (App (Activation ''lrelu'' [(''negative_slope'', 1 / 100)])
                 (App (BatchNorm2d 4)
                   (App (Dropout2d (1 / 2)) (App (Conv2dSame 3 4 3 True) (Unsqueeze Zeros))))))
             (App Identity (Unsqueeze Zeros)))), 1)"
proof -
  let ?main = "[Conv2dSame 3 4 3 True, Dropout2d (1 / 2), BatchNorm2d 4,
         Activation ''lrelu'' [(''negative_slope'', 1 / 100)], Conv2dSame 4 3 3 True]"
  let ?x = "([1, 3, 8, 8], Unsqueeze Zeros) :: int list \<times> expr"
  let ?a = "([1, 3, 8, 8],
           App (Conv2dSame 4 3 3 True)
             (App (Activation ''lrelu'' [(''negative_slope'', 1 / 100)])
               (App (BatchNorm2d 4)
                 (App (Dropout2d (1 / 2)) (App (Conv2dSame 3 4 3 True) (Unsqueeze Zeros))))))
            :: int list \<times> expr"
  let ?b = "([1, 3, 8, 8], App Identity (Unsqueeze Zeros)) :: int list \<times> expr"
  have v: "valid_block [''relu'', ''lrelu''] [4, 3] [3, 3] lrelu_kwargs"
    by (simp add: valid_block_def lrelu_kwargs_def)
  have i: "ResidualBlock_init [''relu'', ''lrelu''] 3 [4, 3] [3, 3] lrelu_kwargs = Inr (?main, [Identity])"
    by (simp add: ResidualBlock_init_valid [OF v])
       (simp add: spec_main_path_def spec_conv_group_def lrelu_kwargs_def upt_rec)
  have m: "forward_seq shape_torch True ?main ?x 0 = (Inr ?a, 1)"
    by (simp add: shape_torch_sel)
  have s: "forward_seq shape_torch True [Identity] ?x 1 = (Inr ?b, 1)"
    by (simp add: shape_torch_sel)
  have ad: "t_add shape_torch ?a ?b = Inr ([1, 3, 8, 8], Add (snd ?a) (snd ?b))"
    by (simp add: shape_torch_sel)
  show ?thesis
    using residual_forward_relu [OF m s ad] i m s by (simp add: shape_torch_sel)
qed

lemma CNN_init_with_Inr:
  assumes "CNN_init_with built T acts a r = (Inr m, r')"
  obtains ex mh where "built = Inr ex"
    and "channels a \<noteq> []" and "hidden_dims a \<noteq> []"
    and "activation_type a \<in> set acts" and "pooling_type a \<in> set (map fst POOLINGS)"
    and "CNN_make_mlp T acts a True (seq ex) r = (Inr mh, r')"
    and "m = \<lparr>feature_extractor = seq ex, tracked_w = out_w ex, tracked_h = out_h ex,
              mlp = mh, training = True\<rparr>"
proof -
  from assms obtain ex where b: "built = Inr ex"
    and ok: "\<not> (channels a = [] \<or> hidden_dims a = [])"
      "\<not> (activation_type a \<notin> set acts \<or> pooling_type a \<notin> set (map fst POOLINGS))"
    by (auto simp: CNN_init_with_def split: if_splits sum.splits)
  from assms b ok obtain mh where mk: "CNN_make_mlp T acts a True (seq ex) r = (Inr mh, r')"
    and m: "m = \<lparr>feature_extractor = seq ex, tracked_w = out_w ex, tracked_h = out_h ex,
                 mlp = mh, training = True\<rparr>"
    by (auto simp: CNN_init_with_def split: if_splits sum.splits prod.splits)
  from b ok mk m that show thesis by blast
qed

lemma CNN_make_mlp_Inr:
  assumes "CNN_make_mlp T acts a tr fe r = (Inr mh, r')"
  obtains n r1 where "CNN_n_features T tr fe (in_size a) r = (Inr n, r1)"
    and "in_dim mh = n" and "dims mh = hidden_dims a @ [out_classes a]"
    and "mlp_init T mh r1 = (None, r')"
proof -
  from assms obtain phi where
    phi: "activation acts (activation_type a) (activation_params a) = Inr phi"
    by (auto simp: CNN_make_mlp_def split: sum.splits)
  from assms phi obtain n r1 where nf: "CNN_n_features T tr fe (in_size a) r = (Inr n, r1)"
    by (auto simp: CNN_make_mlp_def split: sum.splits prod.splits)
  let ?head = "\<lparr>in_dim = n, dims = hidden_dims a @ [out_classes a],
                nonlins = replicate (length (hidden_dims a)) (Inl phi) @ [Inr ''none'']\<rparr>"
  from assms have "(case mlp_init T ?head r1 of
                      (Some e, r2) \<Rightarrow> (Inl e, r2)
                    | (None, r2) \<Rightarrow> (Inr ?head, r2)) = (Inr mh, r')"
    by (simp add: CNN_make_mlp_def phi nf Let_def)
  then have "mh = ?head \<and> mlp_init T ?head r1 = (None, r')"
    by (cases "mlp_init T ?head r1") (auto split: option.splits)
  with nf that show thesis by simp
qed

lemma probe_in_construction:
  assumes "CNN_init_with built T acts a r = (Inr m, r')"
  shows "training m
       \<and> fst (n_features_try T (training m) (feature_extractor m) (in_size a) r) = Inr (in_dim (mlp m))"
proof -
  from assms obtain ex :: extractor and mh where mk: "CNN_make_mlp T acts a True (seq ex) r = (Inr mh, r')"
    and m: "m = \<lparr>feature_extractor = seq ex, tracked_w = out_w ex, tracked_h = out_h ex,
                 mlp = mh, training = True\<rparr>"
    by (rule CNN_init_with_Inr) blast
  from mk obtain n r1 where "CNN_n_features T True (seq ex) (in_size a) r = (Inr n, r1)"
    and "in_dim mh = n"
    by (rule CNN_make_mlp_Inr) blast
  then have "fst (n_features_try T True (seq ex) (in_size a) r) = Inr (in_dim mh)"
    by (simp add: CNN_n_features_def split: prod.splits)
  then show ?thesis by (simp add: m)
qed

lemma drop_probe_runs:
  "n_features_try shape_torch True drop_extractor (3, 8, 8) 0 = (Inr 64, 1)"
  "n_features_try shape_torch False drop_extractor (3, 8, 8) 0 = (Inr 64, 0)"
  by (simp_all add: n_features_try_def drop_extractor_def shape_torch_sel window_shape_def
      out_side_def kwarg_def)

lemma drop_model_built:
  "fst (ResNet_init shape_torch [''relu'', ''lrelu''] drop_args drop_resnet 0) = Inr drop_model"
proof -
  have kw: "block_kw drop_args drop_resnet =
      \<lparr>batchnorm = False, dropout = 1 / 2, act_type = ''relu'', act_params = []\<rparr>"
    by (simp add: block_kw_def drop_args_def drop_resnet_def)
  have v: "valid_block [''relu'', ''lrelu''] [4, 4] [3, 3]
      \<lparr>batchnorm = False, dropout = 1 / 2, act_type = ''relu'', act_params = []\<rparr>"
    by (simp add: valid_block_def)
  have blk: "group_block [''relu'', ''lrelu''] drop_args drop_resnet [3, 4, 4] 0 =
      Inr (ResidualBlock
        [Conv2dSame 3 4 3 True, Dropout2d (1 / 2), Activation ''relu'' [], Conv2dSame 4 4 3 True]
        [Conv2dSame 3 4 1 False])"
    unfolding group_block_def kw
    by (simp add: drop_args_def drop_resnet_def index_def slice_def clamp_index_def
        as_plain_def numeral_2_eq_2 ResidualBlock_init_valid [OF v])
       (simp add: spec_main_path_def spec_conv_group_def upt_rec)
  have fe: "ResNet_make_feature_extractor [''relu'', ''lrelu''] drop_args drop_resnet =
      Inr \<lparr>seq = drop_extractor, out_w = PyInt 4, out_h = PyInt 4\<rparr>"
    unfolding ResNet_make_feature_extractor_def
    using blk
    by (simp add: drop_args_def getitem_def POOLINGS_def py_floordiv_def py_mod_def
        tracked_dims_def floordiv_pow_def drop_extractor_def new_pool_def)
  have sz: "in_size drop_args = (3, 8, 8)" by (simp add: drop_args_def)
  show ?thesis
    unfolding ResNet_init_def CNN_init_with_def fe
    by (simp add: CNN_make_mlp_def CNN_n_features_def sz drop_probe_runs activation_def in_POOLINGS
        shape_torch_sel)
       (simp add: drop_args_def drop_model_def)
qed

text \<open>
  C8, as amended. The state of the global generator after the feature-count probe is the
  state before it, whether the probe returns or raises, for every library, mode and
  extractor. The probe does not bypass stochastic layers or switch to inference mode: it
  returns what running the extractor as it is returns, and during construction that is
  the model's own extractor in the mode the model is in, which is training.
\<close>

theorem probe_restores_generator:
  "snd (CNN_n_features T tr fe sz r) = r
   \<and> fst (CNN_n_features T tr fe sz r) = fst (n_features_try T tr fe sz r)
   \<and> (CNN_init_with built T acts a r = (Inr m, r') \<longrightarrow>
        training m
        \<and> fst (n_features_try T (training m) (feature_extractor m) (in_size a) r)
            = Inr (in_dim (mlp m)))"
proof -
  have p: "snd (CNN_n_features T tr fe sz r) = r"
    by (simp add: CNN_n_features_def split: prod.splits)
  have v: "fst (CNN_n_features T tr fe sz r) = fst (n_features_try T tr fe sz r)"
    by (simp add: CNN_n_features_def split: prod.splits)
  show ?thesis
    using p v probe_in_construction [of built T acts a r m r'] by blast
qed

theorem probe_restores_generator_witness:
  "n_features_try shape_torch True drop_extractor (3, 8, 8) 0 = (Inr 64, 1)
   \<and> CNN_n_features shape_torch True drop_extractor (3, 8, 8) 0 = (Inr 64, 0)
   \<and> n_features_try shape_torch True [Dropout2d (1 / 2), BatchNorm2d 7] (3, 8, 8) 0
       = (Inl RuntimeError, 1)
   \<and> CNN_n_features shape_torch True [Dropout2d (1 / 2), BatchNorm2d 7] (3, 8, 8) 0
       = (Inl RuntimeError, 0)
   \<and> fst (ResNet_init shape_torch [''relu'', ''lrelu''] drop_args drop_resnet 0) = Inr drop_model
   \<and> training drop_model
   \<and> fst (n_features_try shape_torch (training drop_model) (feature_extractor drop_model)
            (in_size drop_args) 0) = Inr (in_dim (mlp drop_model))"
proof -
  have e: "n_features_try shape_torch True [Dropout2d (1 / 2), BatchNorm2d 7] (3, 8, 8) 0
       = (Inl RuntimeError, 1)"
    by (simp add: n_features_try_def shape_torch_sel)
  have a: "CNN_n_features shape_torch True drop_extractor (3, 8, 8) 0 = (Inr 64, 0)"
    using probe_restores_generator [of shape_torch True drop_extractor "(3, 8, 8)" 0]
      drop_probe_runs(1)
    by (simp add: prod_eq_iff)
  have b: "CNN_n_features shape_torch True [Dropout2d (1 / 2), BatchNorm2d 7] (3, 8, 8) 0
       = (Inl RuntimeError, 0)"
    using probe_restores_generator [of shape_torch True "[Dropout2d (1 / 2), BatchNorm2d 7]" "(3, 8, 8)" 0]
      e
    by (simp add: prod_eq_iff)
  obtain r' where built:
    "CNN_init_with (ResNet_make_feature_extractor [''relu'', ''lrelu''] drop_args drop_resnet)
       shape_torch [''relu'', ''lrelu''] drop_args 0 = (Inr drop_model, r')"
    using drop_model_built unfolding ResNet_init_def
    by (cases "CNN_init_with (ResNet_make_feature_extractor [''relu'', ''lrelu''] drop_args drop_resnet)
       shape_torch [''relu'', ''lrelu''] drop_args 0") simp
  have c: "training drop_model
     \<and> fst (n_features_try shape_torch (training drop_model) (feature_extractor drop_model)
            (in_size drop_args) 0) = Inr (in_dim (mlp drop_model))"
    using probe_restores_generator [of shape_torch True drop_extractor "(3, 8, 8)" 0
        "ResNet_make_feature_extractor [''relu'', ''lrelu''] drop_args drop_resnet"
        "[''relu'', ''lrelu'']" drop_args drop_model r']
      built
    by blast
  show ?thesis
    using a b c e drop_probe_runs(1) drop_model_built by blast
qed

text \<open>
  The claim as stated fails: the probe of a residual network built with dropout runs
  the dropout layer in training mode, and the generator has advanced when the
  \<open>try\<close> block is left; in inference mode it would not have.
\<close>

theorem probe_draws_in_training_mode:
  "fst (ResNet_init shape_torch [''relu'', ''lrelu''] drop_args drop_resnet 0) = Inr drop_model
   \<and> training drop_model
   \<and> n_features_try shape_torch (training drop_model) (feature_extractor drop_model)
        (in_size drop_args) 0 = (Inr 64, 1)
   \<and> n_features_try shape_torch False (feature_extractor drop_model) (in_size drop_args) 0
        = (Inr 64, 0)"
  using drop_model_built drop_probe_runs
  by (simp add: drop_model_def drop_args_def)


subsection \<open>A batch through the extractor\<close>

lemma lawful_layer:
  assumes "lawful T" and "apply_layer T tr l x r = (Inr y, r1)"
    and "t_shape T x = 1 # s" and "t_shape T x' = B # s" and "0 < B" and "tr' \<longrightarrow> tr"
  shows "\<exists>s2. t_shape T y = 1 # s2
           \<and> (\<exists>y' r1'. apply_layer T tr' l x' r' = (Inr y', r1') \<and> t_shape T y' = B # s2)"
proof -
  have "\<forall>tr tr' l x x' r r' y r1 s B.
        apply_layer T tr l x r = (Inr y, r1) \<and> t_shape T x = 1 # s \<and> t_shape T x' = B # s
        \<and> 0 < B \<and> (tr' \<longrightarrow> tr) \<longrightarrow>
        (\<exists>s2. t_shape T y = 1 # s2
           \<and> (\<exists>y' r1'. apply_layer T tr' l x' r' = (Inr y', r1') \<and> t_shape T y' = B # s2))"
    by (rule assms(1) [unfolded lawful_def, THEN conjunct1])
  then show ?thesis using assms(2-) by blast
qed

lemma lawful_add:
  assumes "lawful T" and "t_add T x y = Inr z" and "t_shape T x = 1 # sx" and "t_shape T y = 1 # sy"
    and "t_shape T x' = B # sx" and "t_shape T y' = B # sy" and "0 < B"
  shows "\<exists>sz. t_shape T z = 1 # sz \<and> (\<exists>z'. t_add T x' y' = Inr z' \<and> t_shape T z' = B # sz)"
proof -
  have "\<forall>x y x' y' z sx sy B.
        t_add T x y = Inr z \<and> t_shape T x = 1 # sx \<and> t_shape T y = 1 # sy
        \<and> t_shape T x' = B # sx \<and> t_shape T y' = B # sy \<and> 0 < B \<longrightarrow>
        (\<exists>sz. t_shape T z = 1 # sz \<and> (\<exists>z'. t_add T x' y' = Inr z' \<and> t_shape T z' = B # sz))"
    by (rule assms(1) [unfolded lawful_def, THEN conjunct2, THEN conjunct1])
  then show ?thesis using assms(2-) by blast
qed

lemma lawful_rest:
  assumes "lawful T"
  shows "t_shape T (t_relu T x) = t_shape T x"
    and "t_zeros T (c, h, w) = Inr z \<Longrightarrow> t_shape T (t_unsqueeze T z) = [1, c, h, w]"
    and "t_numel T x = prod_list (t_shape T x)"
    and "t_shape T x = b # s \<Longrightarrow> 0 < b \<Longrightarrow> 0 < prod_list s \<Longrightarrow>
           \<exists>f. t_flatten T x = Inr f \<and> t_shape T f = [b, prod_list s]"
    and "fst (mlp_init T head r) = None \<Longrightarrow> t_shape T x = [b, in_dim head] \<Longrightarrow> 0 < b \<Longrightarrow>
           dims head \<noteq> [] \<Longrightarrow>
           \<exists>y. mlp_forward T head x = Inr y \<and> t_shape T y = [b, last (dims head)]"
proof -
  note L = assms [unfolded lawful_def, THEN conjunct2, THEN conjunct2]
  have a: "\<forall>x. t_shape T (t_relu T x) = t_shape T x"
    by (rule L [THEN conjunct1])
  have b: "\<forall>c h w z. t_zeros T (c, h, w) = Inr z \<longrightarrow> t_shape T (t_unsqueeze T z) = [1, c, h, w]"
    by (rule L [THEN conjunct2, THEN conjunct1])
  have c: "\<forall>x. t_numel T x = prod_list (t_shape T x)"
    by (rule L [THEN conjunct2, THEN conjunct2, THEN conjunct1])
  have d: "\<forall>x b s. t_shape T x = b # s \<and> 0 < b \<and> 0 < prod_list s \<longrightarrow>
        (\<exists>f. t_flatten T x = Inr f \<and> t_shape T f = [b, prod_list s])"
    by (rule L [THEN conjunct2, THEN conjunct2, THEN conjunct2, THEN conjunct1])
  have e: "\<forall>head x b r. fst (mlp_init T head r) = None \<and> t_shape T x = [b, in_dim head]
        \<and> 0 < b \<and> dims head \<noteq> [] \<longrightarrow>
        (\<exists>y. mlp_forward T head x = Inr y \<and> t_shape T y = [b, last (dims head)])"
    by (rule L [THEN conjunct2, THEN conjunct2, THEN conjunct2, THEN conjunct2])
  show "t_shape T (t_relu T x) = t_shape T x" using a by blast
  show "t_zeros T (c, h, w) = Inr z \<Longrightarrow> t_shape T (t_unsqueeze T z) = [1, c, h, w]"
    using b by blast
  show "t_numel T x = prod_list (t_shape T x)" using c by blast
  show "t_shape T x = b # s \<Longrightarrow> 0 < b \<Longrightarrow> 0 < prod_list s \<Longrightarrow>
           \<exists>f. t_flatten T x = Inr f \<and> t_shape T f = [b, prod_list s]"
    using d by blast
  show "fst (mlp_init T head r) = None \<Longrightarrow> t_shape T x = [b, in_dim head] \<Longrightarrow> 0 < b \<Longrightarrow>
           dims head \<noteq> [] \<Longrightarrow>
           \<exists>y. mlp_forward T head x = Inr y \<and> t_shape T y = [b, last (dims head)]"
    using e by blast
qed

lemma forward_layer_lift:
  "lawful T \<Longrightarrow> 0 < B \<Longrightarrow> (tr' \<longrightarrow> tr) \<Longrightarrow> forward_layer T tr l x r = (Inr y, r1) \<Longrightarrow>
     t_shape T x = 1 # s \<Longrightarrow> t_shape T x' = B # s \<Longrightarrow>
     \<exists>s2. t_shape T y = 1 # s2
        \<and> (\<exists>y' r1'. forward_layer T tr' l x' r' = (Inr y', r1') \<and> t_shape T y' = B # s2)"
  and forward_seq_lift:
    "lawful T \<Longrightarrow> 0 < B \<Longrightarrow> (tr' \<longrightarrow> tr) \<Longrightarrow> forward_seq T tr ls x r = (Inr y, r1) \<Longrightarrow>
     t_shape T x = 1 # s \<Longrightarrow> t_shape T x' = B # s \<Longrightarrow>
     \<exists>s2. t_shape T y = 1 # s2
        \<and> (\<exists>y' r1'. forward_seq T tr' ls x' r' = (Inr y', r1') \<and> t_shape T y' = B # s2)"
proof (induction T tr l x r and T tr ls x r arbitrary: y r1 s x' r' and y r1 s x' r'
    rule: forward_layer_forward_seq.induct)
  case (1 T tr main short x r)
  from "1.prems"(4) obtain a ra b out where
    m: "forward_seq T tr main x r = (Inr a, ra)"
    and sh: "forward_seq T tr short x ra = (Inr b, r1)"
    and ad: "t_add T a b = Inr out" and y: "y = t_relu T out"
    by (auto split: prod.splits sum.splits)
  from "1.IH"(1) [OF "1.prems"(1-3) m "1.prems"(5,6), of r']
  obtain sa a' ra' where a: "t_shape T a = 1 # sa"
    and m': "forward_seq T tr' main x' r' = (Inr a', ra')" and a': "t_shape T a' = B # sa"
    by blast
  from "1.IH"(2) [OF m [symmetric] refl "1.prems"(1-3) sh "1.prems"(5,6), of ra']
  obtain sb b' rb' where b: "t_shape T b = 1 # sb"
    and sh': "forward_seq T tr' short x' ra' = (Inr b', rb')" and b': "t_shape T b' = B # sb"
    by blast
  from lawful_add [OF "1.prems"(1) ad a b a' b' "1.prems"(2)]
  obtain sz z' where z: "t_shape T out = 1 # sz"
    and ad': "t_add T a' b' = Inr z'" and z': "t_shape T z' = B # sz"
    by blast
  have "forward_layer T tr' (ResidualBlock main short) x' r' = (Inr (t_relu T z'), rb')"
    by (simp add: m' sh' ad')
  moreover have "t_shape T (t_relu T z') = B # sz" "t_shape T y = 1 # sz"
    by (simp_all add: lawful_rest(1) [OF "1.prems"(1)] z z' y)
  ultimately show ?case by blast
next
  case (2 T tr main short x r)
  from "2.prems"(4) obtain a ra b out where
    m: "forward_seq T tr main x r = (Inr a, ra)"
    and sh: "forward_seq T tr short x ra = (Inr b, r1)"
    and ad: "t_add T a b = Inr out" and y: "y = t_relu T out"
    by (auto split: prod.splits sum.splits)
  from "2.IH"(1) [OF "2.prems"(1-3) m "2.prems"(5,6), of r']
  obtain sa a' ra' where a: "t_shape T a = 1 # sa"
    and m': "forward_seq T tr' main x' r' = (Inr a', ra')" and a': "t_shape T a' = B # sa"
    by blast
  from "2.IH"(2) [OF m [symmetric] refl "2.prems"(1-3) sh "2.prems"(5,6), of ra']
  obtain sb b' rb' where b: "t_shape T b = 1 # sb"
    and sh': "forward_seq T tr' short x' ra' = (Inr b', rb')" and b': "t_shape T b' = B # sb"
    by blast
  from lawful_add [OF "2.prems"(1) ad a b a' b' "2.prems"(2)]
  obtain sz z' where z: "t_shape T out = 1 # sz"
    and ad': "t_add T a' b' = Inr z'" and z': "t_shape T z' = B # sz"
    by blast
  have "forward_layer T tr' (ResidualBottleneckBlock main short) x' r' = (Inr (t_relu T z'), rb')"
    by (simp add: m' sh' ad')
  moreover have "t_shape T (t_relu T z') = B # sz" "t_shape T y = 1 # sz"
    by (simp_all add: lawful_rest(1) [OF "2.prems"(1)] z z' y)
  ultimately show ?case by blast
next
  case (4 T tr x r)
  then show ?case by auto
next
  case (5 T tr l ls x r)
  from "5.prems"(4) obtain z rz where
    l: "forward_layer T tr l x r = (Inr z, rz)"
    and ls: "forward_seq T tr ls z rz = (Inr y, r1)"
    by (auto split: prod.splits sum.splits)
  from "5.IH"(1) [OF "5.prems"(1-3) l "5.prems"(5,6), of r']
  obtain sz z' rz' where z: "t_shape T z = 1 # sz"
    and l': "forward_layer T tr' l x' r' = (Inr z', rz')" and z': "t_shape T z' = B # sz"
    by blast
  from "5.IH"(2) [OF l [symmetric] refl "5.prems"(1-3) ls z z', of rz']
  obtain s2 y' r1' where "t_shape T y = 1 # s2"
    and "forward_seq T tr' ls z' rz' = (Inr y', r1')" and "t_shape T y' = B # s2"
    by blast
  then show ?case by (simp add: l')
qed (simp_all only: forward_layer.simps, (rule lawful_layer; assumption)+)





section \<open>Block selection in the residual feature extractor\<close>













subsection \<open>What a block constructor returns when it returns\<close>








subsection \<open>The blocks of the groups\<close>







subsection \<open>The builder\<close>









end
